theory Spec2Isabelle
  imports Main "HOL-Library.Word"
begin

unbundle bit_operations_syntax

section \<open>osformat: error codes and flag words\<close>

text \<open>
  The embedding follows \<^verbatim>\<open>osformat/osformat.h\<close> and \<^verbatim>\<open>osformat/osformat.cc\<close>.
  Platform assumptions (LP64, as on x86-64 Linux): \<^verbatim>\<open>unsigned int\<close> is 32 bits,
  \<^verbatim>\<open>std::string::size_type\<close> and \<^verbatim>\<open>Parse::size_type\<close> are unsigned 64 bits,
  \<^verbatim>\<open>std::streamsize\<close> is signed 64 bits, plain \<^verbatim>\<open>char\<close> is signed.
  Positions inside the format string are natural numbers: a string that fits in
  memory is shorter than \<open>2 ^ 64\<close>, so position arithmetic does not wrap.
\<close>

text \<open>\<^verbatim>\<open>Error::Code\<close> (without the end marker \<^verbatim>\<open>kEnd\<close>).\<close>

datatype Code =
    kNone
  | kWriteFailed
  | kFlushFailed
  | kTooManyArguments
  | kTooFewArguments
  | kTooEarlyArgument
  | kLocaleArgIsNoLocale
  | kLocaleMustNotBeOutput
  | kPrecisionArgIsNotNumeric
  | kWidthArgIsNotNumeric
  | kFillArgIsNotChar
  | kTrailingPercentage
  | kNumberWithoutDollar
  | kNumberOverflow
  | kMissingSpecifier
  | kUnknownSpecifier
  | kMissingFillCharacter

text \<open>
  How a member function ends when it does not return normally. \<open>Failed e\<close>: the
  function called \<^verbatim>\<open>Throw(e)\<close> and gave up (inside the parser: it returned
  \<^verbatim>\<open>false\<close>; for the whole object with \<^verbatim>\<open>abort_\<close> set: the diagnostic for \<open>e\<close> was
  printed and the process aborted). \<open>Exception\<close>: a C++ exception
  (\<^verbatim>\<open>std::length_error\<close> or \<^verbatim>\<open>std::bad_alloc\<close> from \<^verbatim>\<open>std::vector::resize\<close>) left the
  function; the library catches none.
\<close>

datatype failure = Failed Code | Exception

type_synonym Flags = "32 word"

subsection \<open>class Special\<close>

definition Special_kNone :: Flags where "Special_kNone = 0"
definition Special_kNewline :: Flags where "Special_kNewline = push_bit 1 1"
definition Special_kFlush :: Flags where "Special_kFlush = push_bit 2 1"
definition Special_kAll :: Flags where "Special_kAll = push_bit 3 1 - 1"

text \<open>A \<^verbatim>\<open>Special\<close> object holds the single field \<^verbatim>\<open>flags_\<close>.\<close>

datatype Special = Special (get: Flags)

definition Special_New :: "Flags \<Rightarrow> Special" where
  "Special_New f = Special f"

definition Special_None :: Special where
  "Special_None = Special Special_kNone"

definition Special_Newline :: Special where
  "Special_Newline = Special_New Special_kNewline"

definition Special_Flush :: Special where
  "Special_Flush = Special_New Special_kNewline"

definition Special_NewlineFlush :: Special where
  "Special_NewlineFlush = Special_New (Special_kNewline OR Special_kFlush)"

definition Special_FlushNewline :: Special where
  "Special_FlushNewline = Special_New (Special_kFlush OR Special_kNewline)"

definition HaveBits :: "Special \<Rightarrow> Flags \<Rightarrow> bool" where
  "HaveBits s f = (get s AND f \<noteq> Special_kNone)"

section \<open>Parsing decimal numbers inside the format string\<close>

text \<open>
  \<^verbatim>\<open>std::isdigit\<close> in the "C" locale and the static helper \<^verbatim>\<open>IsPositiveNumber\<close>.
\<close>

definition isdigit :: "char \<Rightarrow> bool" where
  "isdigit c = (c \<in> set ''0123456789'')"

definition IsPositiveNumber :: "char \<Rightarrow> bool" where
  "IsPositiveNumber c = (isdigit c \<and> c \<noteq> CHR ''0'')"

text \<open>
  \<^verbatim>\<open>text_[k]\<close>: \<^verbatim>\<open>std::string::operator[]\<close> yields the terminating zero character at
  \<open>k = size\<close>.
\<close>

definition char_at :: "string \<Rightarrow> nat \<Rightarrow> char" where
  "char_at s k = (if k < length s then s ! k else CHR 0x00)"

text \<open>\<^verbatim>\<open>static_cast<T>(text_[k] - '0')\<close> for a digit character.\<close>

definition digit_val :: "char \<Rightarrow> nat" where
  "digit_val c = of_char c - of_char CHR ''0''"

text \<open>
  \<^verbatim>\<open>Format::ParseNumber<T>\<close>, the loop after \<^verbatim>\<open>result\<close> has been initialised from
  the first digit. \<^verbatim>\<open>T\<close> is \<^verbatim>\<open>Parse::size_type\<close> for argument numbers: unsigned 64-bit
  arithmetic wraps and \<^verbatim>\<open><=\<close> compares unsigned values. The callers pass
  \<open>start < end\<close>; the loop leaves when the incremented \<open>start\<close> reaches \<open>end\<close>.
\<close>

function ParseNumber_loop :: "string \<Rightarrow> 64 word \<Rightarrow> nat \<Rightarrow> nat \<Rightarrow> Code + 64 word" where
  "ParseNumber_loop text result start end =
     (if end \<le> Suc start then Inr result
      else let next_result = result * 10 + of_nat (digit_val (char_at text (Suc start)))
           in if next_result \<le> result then Inl kNumberOverflow
              else ParseNumber_loop text next_result (Suc start) end)"
  by pat_completeness auto
termination
  by (relation "measure (\<lambda>(text, result, start, end). end - start)") auto

declare ParseNumber_loop.simps [simp del]

definition ParseNumber :: "string \<Rightarrow> nat \<Rightarrow> nat \<Rightarrow> Code + 64 word" where
  "ParseNumber text start end =
     ParseNumber_loop text (of_nat (digit_val (char_at text start))) start end"

text \<open>
  The instance for \<^verbatim>\<open>T = std::streamsize\<close> (literal width and precision): the same
  loop on a signed 64-bit value; \<^verbatim>\<open><=\<close> compares signed values. Signed overflow is
  undefined in C++; the model takes the two's-complement result.
\<close>

function ParseNumber_sloop :: "string \<Rightarrow> 64 word \<Rightarrow> nat \<Rightarrow> nat \<Rightarrow> Code + 64 word" where
  "ParseNumber_sloop text result start end =
     (if end \<le> Suc start then Inr result
      else let next_result = result * 10 + of_nat (digit_val (char_at text (Suc start)))
           in if next_result \<le>s result then Inl kNumberOverflow
              else ParseNumber_sloop text next_result (Suc start) end)"
  by pat_completeness auto
termination
  by (relation "measure (\<lambda>(text, result, start, end). end - start)") auto

declare ParseNumber_sloop.simps [simp del]

definition ParseNumber_streamsize :: "string \<Rightarrow> nat \<Rightarrow> nat \<Rightarrow> Code + 64 word" where
  "ParseNumber_streamsize text start end =
     ParseNumber_sloop text (of_nat (digit_val (char_at text start))) start end"

text \<open>The decimal value of a digit string, most significant digit first.\<close>

definition decimal_value :: "string \<Rightarrow> nat" where
  "decimal_value ds = foldl (\<lambda>acc c. acc * 10 + digit_val c) 0 ds"

section \<open>The output stream of a conversion specification\<close>

text \<open>
  Each \<^verbatim>\<open>Manip\<close> owns a \<^verbatim>\<open>std::ostringstream\<close>. The embedding keeps the part of
  its state that the library sets and reads: the format flags, the fill character,
  the field width, the precision, the imbued locale and the characters written so
  far (what \<^verbatim>\<open>str()\<close> returns).
\<close>

datatype fmtflag =
    ios_boolalpha | ios_dec | ios_fixed | ios_hex | ios_internal | ios_left | ios_oct
  | ios_right | ios_scientific | ios_showbase | ios_showpoint | ios_showpos | ios_skipws
  | ios_unitbuf | ios_uppercase

definition ios_adjustfield :: "fmtflag set" where
  "ios_adjustfield = {ios_left, ios_right, ios_internal}"

definition ios_basefield :: "fmtflag set" where
  "ios_basefield = {ios_dec, ios_oct, ios_hex}"

text \<open>A \<^verbatim>\<open>std::locale\<close>, identified by its name.\<close>

datatype std_locale = Locale string

record ostringstream =
  os_flags :: "fmtflag set"
  os_fill :: char
  os_width :: "64 word"
  os_precision :: "64 word"
  os_locale :: std_locale
  os_str :: string

text \<open>A freshly constructed \<^verbatim>\<open>std::ostringstream\<close>.\<close>

definition new_ostringstream :: ostringstream where
  "new_ostringstream =
     \<lparr>os_flags = {ios_skipws, ios_dec}, os_fill = CHR '' '', os_width = 0,
      os_precision = 6, os_locale = Locale ''C'', os_str = []\<rparr>"

text \<open>\<^verbatim>\<open>setf(flags)\<close> and \<^verbatim>\<open>setf(flags, mask)\<close> of \<^verbatim>\<open>std::ios_base\<close>.\<close>

definition setf :: "fmtflag set \<Rightarrow> ostringstream \<Rightarrow> ostringstream" where
  "setf fl os = os\<lparr>os_flags := os_flags os \<union> fl\<rparr>"

definition setf_mask :: "fmtflag set \<Rightarrow> fmtflag set \<Rightarrow> ostringstream \<Rightarrow> ostringstream" where
  "setf_mask fl msk os = os\<lparr>os_flags := (os_flags os - msk) \<union> (fl \<inter> msk)\<rparr>"

text \<open>
  Modelled from the C++ standard library (not part of the repository): inserting a
  character sequence with \<^verbatim>\<open>operator<<\<close> pads it with the fill character up to the
  field width, on the right when \<^verbatim>\<open>adjustfield\<close> is \<^verbatim>\<open>left\<close> and on the left
  otherwise, and resets the width to 0. A width that is not positive pads nothing.
\<close>

definition put_text :: "string \<Rightarrow> ostringstream \<Rightarrow> ostringstream" where
  "put_text s os =
     (let pad = replicate (nat (sint (os_width os)) - length s) (os_fill os);
          field = (if os_flags os \<inter> ios_adjustfield = {ios_left} then s @ pad else pad @ s)
      in os\<lparr>os_str := os_str os @ field, os_width := 0\<rparr>)"

section \<open>Arguments\<close>

text \<open>
  \<^verbatim>\<open>operator%\<close> is a template over the argument type \<^verbatim>\<open>T\<close>. What the library
  distinguishes is which overload of \<^verbatim>\<open>SetLocale\<close>, \<^verbatim>\<open>SetPrecision\<close>, \<^verbatim>\<open>SetWidth\<close>,
  \<^verbatim>\<open>SetFill\<close>, \<^verbatim>\<open>StringStandard\<close> and \<^verbatim>\<open>StringNpos\<close> the type selects; a value of any
  other type (\<^verbatim>\<open>std::string\<close>, a character array, a pointer, a user type) takes the
  default templates. The overloads for \<^verbatim>\<open>float\<close>, \<^verbatim>\<open>double\<close> and \<^verbatim>\<open>long double\<close> are
  not embedded (floating point).
\<close>

datatype cvalue =
    VBool bool
  | VChar "8 word"
  | VSChar "8 word"
  | VUChar "8 word"
  | VShort "16 word"
  | VUShort "16 word"
  | VInt "32 word"
  | VUInt "32 word"
  | VLong "64 word"
  | VULong "64 word"
  | VLongLong "64 word"
  | VULongLong "64 word"
  | VChar16 "16 word"
  | VChar32 "32 word"
  | VWChar "32 word"
  | VLocale std_locale
  | VOther

text \<open>
  An argument is its value together with what \<^verbatim>\<open>os << arg\<close> does to a stream for
  that type: the inserter is chosen by the C++ type and is not part of the
  repository, so it is carried by the argument.
\<close>

record arg =
  val :: cvalue
  put :: "ostringstream \<Rightarrow> ostringstream"

subsection \<open>The setters selected by the argument type\<close>

definition SetLocale :: "ostringstream \<Rightarrow> arg \<Rightarrow> Code + ostringstream" where
  "SetLocale os a =
     (case val a of
        VLocale l \<Rightarrow> Inr (os\<lparr>os_locale := l\<rparr>)
      | _ \<Rightarrow> Inl kLocaleArgIsNoLocale)"

text \<open>\<^verbatim>\<open>static_cast<std::streamsize>(arg)\<close> for the types with an overload.\<close>

fun to_streamsize :: "cvalue \<Rightarrow> 64 word option" where
  "to_streamsize (VBool b) = Some (if b then 1 else 0)"
| "to_streamsize (VChar w) = Some (scast w)"
| "to_streamsize (VSChar w) = Some (scast w)"
| "to_streamsize (VUChar w) = Some (ucast w)"
| "to_streamsize (VShort w) = Some (scast w)"
| "to_streamsize (VUShort w) = Some (ucast w)"
| "to_streamsize (VInt w) = Some (scast w)"
| "to_streamsize (VUInt w) = Some (ucast w)"
| "to_streamsize (VLong w) = Some w"
| "to_streamsize (VULong w) = Some w"
| "to_streamsize (VLongLong w) = Some w"
| "to_streamsize (VULongLong w) = Some w"
| "to_streamsize (VChar16 w) = Some (ucast w)"
| "to_streamsize (VChar32 w) = Some (ucast w)"
| "to_streamsize (VWChar w) = Some (scast w)"
| "to_streamsize (VLocale l) = None"
| "to_streamsize VOther = None"

definition SetPrecision :: "ostringstream \<Rightarrow> arg \<Rightarrow> Code + ostringstream" where
  "SetPrecision os a =
     (case to_streamsize (val a) of
        Some n \<Rightarrow> Inr (os\<lparr>os_precision := n\<rparr>)
      | None \<Rightarrow> Inl kPrecisionArgIsNotNumeric)"

text \<open>
  \<^verbatim>\<open>SetWidth\<close>. The overloads for the signed types test \<^verbatim>\<open>arg < 0\<close> (for \<^verbatim>\<open>char\<close>
  and \<^verbatim>\<open>wchar_t\<close>: \<^verbatim>\<open>arg <= 0\<close> and \<^verbatim>\<open>arg != 0\<close>), execute \<^verbatim>\<open>arg = -arg\<close> in the
  argument's own type and select left adjustment; then the value is cast to
  \<^verbatim>\<open>std::streamsize\<close>. For the types narrower than \<^verbatim>\<open>int\<close> the negation is computed
  in \<^verbatim>\<open>int\<close> and narrowed back on assignment, which is the negation modulo the
  type's width. For \<^verbatim>\<open>int\<close>, \<^verbatim>\<open>long\<close>, \<^verbatim>\<open>long long\<close> and \<^verbatim>\<open>wchar_t\<close> the negation of the
  least value is undefined in C++; the model takes the two's-complement result.
\<close>

definition width_left :: "64 word \<Rightarrow> ostringstream \<Rightarrow> ostringstream" where
  "width_left n os = (setf_mask {ios_left} ios_adjustfield os)\<lparr>os_width := n\<rparr>"

definition width_plain :: "64 word \<Rightarrow> ostringstream \<Rightarrow> ostringstream" where
  "width_plain n os = os\<lparr>os_width := n\<rparr>"

fun SetWidth_value :: "ostringstream \<Rightarrow> cvalue \<Rightarrow> Code + ostringstream" where
  "SetWidth_value os (VBool b) = Inr (width_plain (if b then 1 else 0) os)"
| "SetWidth_value os (VChar w) =
     Inr (if w \<le>s 0 \<and> w \<noteq> 0 then width_left (scast (- w)) os else width_plain (scast w) os)"
| "SetWidth_value os (VSChar w) =
     Inr (if w <s 0 then width_left (scast (- w)) os else width_plain (scast w) os)"
| "SetWidth_value os (VUChar w) = Inr (width_plain (ucast w) os)"
| "SetWidth_value os (VShort w) =
     Inr (if w <s 0 then width_left (scast (- w)) os else width_plain (scast w) os)"
| "SetWidth_value os (VUShort w) = Inr (width_plain (ucast w) os)"
| "SetWidth_value os (VInt w) =
     Inr (if w <s 0 then width_left (scast (- w)) os else width_plain (scast w) os)"
| "SetWidth_value os (VUInt w) = Inr (width_plain (ucast w) os)"
| "SetWidth_value os (VLong w) =
     Inr (if w <s 0 then width_left (- w) os else width_plain w os)"
| "SetWidth_value os (VULong w) = Inr (width_plain w os)"
| "SetWidth_value os (VLongLong w) =
     Inr (if w <s 0 then width_left (- w) os else width_plain w os)"
| "SetWidth_value os (VULongLong w) = Inr (width_plain w os)"
| "SetWidth_value os (VChar16 w) = Inr (width_plain (ucast w) os)"
| "SetWidth_value os (VChar32 w) = Inr (width_plain (ucast w) os)"
| "SetWidth_value os (VWChar w) =
     Inr (if w \<le>s 0 \<and> w \<noteq> 0 then width_left (scast (- w)) os else width_plain (scast w) os)"
| "SetWidth_value os (VLocale l) = Inl kWidthArgIsNotNumeric"
| "SetWidth_value os VOther = Inl kWidthArgIsNotNumeric"

definition SetWidth :: "ostringstream \<Rightarrow> arg \<Rightarrow> Code + ostringstream" where
  "SetWidth os a = SetWidth_value os (val a)"

text \<open>\<^verbatim>\<open>static_cast<char>(arg)\<close>: the low eight bits.\<close>

fun to_char :: "cvalue \<Rightarrow> char option" where
  "to_char (VBool b) = Some (char_of (if b then 1 else 0 :: nat))"
| "to_char (VChar w) = Some (char_of (unat w))"
| "to_char (VSChar w) = Some (char_of (unat w))"
| "to_char (VUChar w) = Some (char_of (unat w))"
| "to_char (VShort w) = Some (char_of (unat w))"
| "to_char (VUShort w) = Some (char_of (unat w))"
| "to_char (VInt w) = Some (char_of (unat w))"
| "to_char (VUInt w) = Some (char_of (unat w))"
| "to_char (VLong w) = Some (char_of (unat w))"
| "to_char (VULong w) = Some (char_of (unat w))"
| "to_char (VLongLong w) = Some (char_of (unat w))"
| "to_char (VULongLong w) = Some (char_of (unat w))"
| "to_char (VChar16 w) = Some (char_of (unat w))"
| "to_char (VChar32 w) = Some (char_of (unat w))"
| "to_char (VWChar w) = Some (char_of (unat w))"
| "to_char (VLocale l) = None"
| "to_char VOther = None"

definition SetFill :: "ostringstream \<Rightarrow> arg \<Rightarrow> Code + ostringstream" where
  "SetFill os a =
     (case to_char (val a) of
        Some c \<Rightarrow> Inr (os\<lparr>os_fill := c\<rparr>)
      | None \<Rightarrow> Inl kFillArgIsNotChar)"

definition StringStandard :: "ostringstream \<Rightarrow> arg \<Rightarrow> Code + ostringstream" where
  "StringStandard os a =
     (case val a of
        VLocale l \<Rightarrow> Inl kLocaleMustNotBeOutput
      | _ \<Rightarrow> Inr (put a os))"

text \<open>
  \<^verbatim>\<open>StringNpos\<close>: the overload for \<^verbatim>\<open>std::string::size_type\<close> (\<^verbatim>\<open>unsigned long\<close>)
  writes the words \<^verbatim>\<open>std::string::npos\<close> for the value \<^verbatim>\<open>npos\<close>, the all-ones word.
\<close>

definition StringNpos :: "ostringstream \<Rightarrow> arg \<Rightarrow> Code + ostringstream" where
  "StringNpos os a =
     (case val a of
        VLocale l \<Rightarrow> Inl kLocaleMustNotBeOutput
      | VULong w \<Rightarrow> Inr (if w = - 1 then put_text ''std::string::npos'' os else put a os)
      | _ \<Rightarrow> Inr (put a os))"

section \<open>Manip, References and the parser state\<close>

definition Defines_kNone :: Flags where "Defines_kNone = 0"
definition kLocale :: Flags where "kLocale = push_bit 1 1"
definition kPrecision :: Flags where "kPrecision = push_bit 2 1"
definition kWidth :: Flags where "kWidth = push_bit 3 1"
definition kFill :: Flags where "kFill = push_bit 4 1"
definition kArg :: Flags where "kArg = push_bit 5 1"
definition Defines_kAll :: Flags where "Defines_kAll = push_bit 6 1 - 1"

definition Extensions_kNone :: Flags where "Extensions_kNone = 0"
definition kIgnore :: Flags where "kIgnore = push_bit 1 1"
definition kPlusSpace :: Flags where "kPlusSpace = push_bit 2 1"
definition kStringNpos :: Flags where "kStringNpos = push_bit 3 1"
definition Extensions_kAll :: Flags where "Extensions_kAll = push_bit 4 1 - 1"

text \<open>
  \<^verbatim>\<open>Manip\<close> with its members \<^verbatim>\<open>ostream_\<close>, \<^verbatim>\<open>extensions_\<close> and \<^verbatim>\<open>need_\<close>
  (a field name cannot end in an underscore here, so the members carry a prefix).
\<close>

record Manip =
  m_ostream :: ostringstream
  m_extensions :: Flags
  m_need :: Flags

definition new_Manip :: Manip where
  "new_Manip = \<lparr>m_ostream = new_ostringstream, m_extensions = Extensions_kNone,
                m_need = Defines_kNone\<rparr>"

text \<open>
  \<^verbatim>\<open>References\<close> points to a \<^verbatim>\<open>Manip\<close>. All \<^verbatim>\<open>Manip\<close> objects are owned by the
  vector \<^verbatim>\<open>format_\<close>, in the order of the format string; the pointer is modelled
  by the position of the object in \<^verbatim>\<open>format_\<close>.
\<close>

record References =
  r_set_these :: Flags
  r_manip :: nat

text \<open>
  The state of \<^verbatim>\<open>Format::ParseFormat\<close>: the member \<^verbatim>\<open>text_\<close>, the members
  \<^verbatim>\<open>format_\<close>, \<^verbatim>\<open>borders_\<close> and \<^verbatim>\<open>args_\<close> of \<^verbatim>\<open>*parse_\<close>, and the locals
  \<^verbatim>\<open>specified\<close> and \<^verbatim>\<open>define_queue\<close>. The field \<open>vector_max\<close> is not a variable of
  the program: it is the greatest size that \<^verbatim>\<open>std::vector::resize\<close> grants in this
  run (at most the vector's \<^verbatim>\<open>max_size()\<close>, less when memory is short); a larger
  request ends in an exception.
\<close>

record pstate =
  vector_max :: nat
  p_text :: string
  p_format :: "Manip list"
  p_borders :: "nat list"
  p_args :: "References list list"
  specified :: "bool list"
  define_queue :: "References list"

text \<open>\<^verbatim>\<open>std::vector::resize\<close> with value-initialised new elements.\<close>

definition resize :: "'a list \<Rightarrow> nat \<Rightarrow> 'a \<Rightarrow> 'a list" where
  "resize xs n d = take n xs @ replicate (n - length xs) d"

text \<open>
  \<^verbatim>\<open>Parse::SetIndirect\<close>: the loop over \<^verbatim>\<open>args_[argnum]\<close>, then the whole function.
  The source indexes \<^verbatim>\<open>args_\<close> without a range check; its callers make the vector
  long enough first (the list update leaves a shorter list unchanged).
\<close>

fun SetIndirect_defines :: "Flags \<Rightarrow> nat \<Rightarrow> References list \<Rightarrow> References list" where
  "SetIndirect_defines set_these manip [] = [\<lparr>r_set_these = set_these, r_manip = manip\<rparr>]"
| "SetIndirect_defines set_these manip (it # rest) =
     (if r_manip it = manip then it\<lparr>r_set_these := r_set_these it OR set_these\<rparr> # rest
      else it # SetIndirect_defines set_these manip rest)"

definition SetIndirect ::
  "nat \<Rightarrow> Flags \<Rightarrow> nat \<Rightarrow> References list list \<Rightarrow> References list list" where
  "SetIndirect argnum set_these manip as =
     as[argnum := SetIndirect_defines set_these manip (as ! argnum)]"

text \<open>
  \<^verbatim>\<open>Format::HandleArgumentNumber\<close>. Both vectors are resized to \<open>argnum + 1\<close>, a size
  read from the format string; \<open>None\<close> stands for the exception of a resize that is
  not granted. (The other allocations of the parser have sizes bounded by the length
  of the format string and are taken to succeed.)
\<close>

definition HandleArgumentNumber :: "nat \<Rightarrow> pstate \<Rightarrow> pstate option" where
  "HandleArgumentNumber argnum st =
     (if length (specified st) \<le> argnum
      then (if vector_max st < argnum + 1 then None
            else Some (st\<lparr>specified := (resize (specified st) (argnum + 1) False)[argnum := True],
                          p_args := resize (p_args st) (argnum + 1) []\<rparr>))
      else Some (st\<lparr>specified := (specified st)[argnum := True]\<rparr>))"

text \<open>
  The static helpers \<^verbatim>\<open>EndNumber\<close> and \<^verbatim>\<open>EndArgumentNumber\<close>; \<^verbatim>\<open>string::npos\<close> is
  \<open>None\<close>. \<^verbatim>\<open>EndNumber\<close> is called with \<open>start\<close> inside the string.
\<close>

function EndNumber :: "string \<Rightarrow> nat \<Rightarrow> nat" where
  "EndNumber s start =
     (if length s \<le> Suc start then Suc start
      else if \<not> isdigit (char_at s (Suc start)) then Suc start
      else EndNumber s (Suc start))"
  by pat_completeness auto
termination
  by (relation "measure (\<lambda>(s, start). length s - start)") auto

declare EndNumber.simps [simp del]

definition EndArgumentNumber :: "string \<Rightarrow> nat \<Rightarrow> nat option" where
  "EndArgumentNumber s start =
     (if \<not> IsPositiveNumber (char_at s start) then None
      else let end = EndNumber s start
           in if end \<noteq> length s \<and> char_at s end = CHR ''$'' then Some (end + 1) else None)"

text \<open>\<^verbatim>\<open>Format::SetArg\<close>. The result carries the updated \<^verbatim>\<open>Manip\<close>, index and state.\<close>

definition SetArg ::
  "Flags \<Rightarrow> nat \<Rightarrow> Manip \<Rightarrow> nat \<Rightarrow> pstate \<Rightarrow> failure + (Manip \<times> nat \<times> pstate)" where
  "SetArg set_these idx manip index st =
     (let manip1 = manip\<lparr>m_need := m_need manip OR set_these\<rparr>;
          index1 = Suc index
      in if index1 = length (p_text st) then Inl (Failed kMissingSpecifier)
         else case EndArgumentNumber (p_text st) index1 of
                Some end \<Rightarrow>
                  if end = length (p_text st) then Inl (Failed kMissingSpecifier)
                  else (case ParseNumber (p_text st) index1 (end - 1) of
                          Inl e \<Rightarrow> Inl (Failed e)
                        | Inr number \<Rightarrow>
                            (case HandleArgumentNumber (unat number - 1) st of
                               None \<Rightarrow> Inl Exception
                             | Some st1 \<Rightarrow>
                                 Inr (manip1, end,
                                   st1\<lparr>p_args := SetIndirect (unat number - 1) set_these idx
                                                     (p_args st1)\<rparr>)))
              | None \<Rightarrow>
                  Inr (manip1, index1,
                    st\<lparr>define_queue := define_queue st
                         @ [\<lparr>r_set_these = set_these, r_manip = idx\<rparr>]\<rparr>))"

subsection \<open>The switch over the characters of a conversion specification\<close>

definition on_stream :: "(ostringstream \<Rightarrow> ostringstream) \<Rightarrow> Manip \<Rightarrow> Manip" where
  "on_stream f manip = manip\<lparr>m_ostream := f (m_ostream manip)\<rparr>"

definition add_extension :: "Flags \<Rightarrow> Manip \<Rightarrow> Manip" where
  "add_extension e manip = manip\<lparr>m_extensions := m_extensions manip OR e\<rparr>"

text \<open>
  The cases that only change the \<^verbatim>\<open>Manip\<close> and leave the switch with \<^verbatim>\<open>break\<close>
  without setting \<^verbatim>\<open>got_specifier\<close>. The case for the space character falls through
  to the case for \<^verbatim>\<open>+\<close>.
\<close>

definition flag_case :: "char \<Rightarrow> Manip \<Rightarrow> Manip option" where
  "flag_case c manip =
     (if c = CHR ''#'' then Some (on_stream (setf {ios_showbase}) manip)
      else if c = CHR '' '' then
        Some (on_stream (setf {ios_showpos}) (add_extension kPlusSpace manip))
      else if c = CHR ''+'' then Some (on_stream (setf {ios_showpos}) manip)
      else if c = CHR ''0'' then Some (on_stream (\<lambda>os. os\<lparr>os_fill := CHR ''0''\<rparr>) manip)
      else if c = CHR ''-'' then
        Some (on_stream (setf_mask {ios_left} ios_adjustfield) manip)
      else if c = CHR '':'' then
        Some (on_stream (setf_mask {ios_internal} ios_adjustfield) manip)
      else None)"

text \<open>The cases that set \<^verbatim>\<open>got_specifier\<close>.\<close>

definition specifier_case :: "char \<Rightarrow> Manip \<Rightarrow> Manip option" where
  "specifier_case c manip =
     (if c = CHR ''n'' then Some (add_extension kIgnore manip)
      else if c = CHR ''s'' then Some manip
      else if c = CHR ''S'' then
        Some (add_extension kStringNpos
               (on_stream (setf {ios_boolalpha, ios_showpoint}) manip))
      else if c = CHR ''d'' then
        Some (add_extension kStringNpos (on_stream (setf {ios_boolalpha}) manip))
      else if c = CHR ''D'' then
        Some (add_extension kStringNpos
               (on_stream (setf {ios_boolalpha, ios_uppercase}) manip))
      else if c = CHR ''x'' then Some (on_stream (setf_mask {ios_hex} ios_basefield) manip)
      else if c = CHR ''X'' then
        Some (on_stream (setf_mask {ios_hex, ios_uppercase}
                           (ios_basefield \<union> {ios_uppercase})) manip)
      else if c = CHR ''o'' then Some (on_stream (setf_mask {ios_oct} ios_basefield) manip)
      else if c = CHR ''O'' then
        Some (on_stream (setf_mask {ios_oct, ios_uppercase}
                           (ios_basefield \<union> {ios_uppercase})) manip)
      else if c = CHR ''f'' then Some (on_stream (setf {ios_fixed}) manip)
      else if c = CHR ''F'' then Some (on_stream (setf {ios_fixed, ios_uppercase}) manip)
      else if c = CHR ''e'' then Some (on_stream (setf {ios_scientific}) manip)
      else if c = CHR ''E'' then
        Some (on_stream (setf {ios_scientific, ios_uppercase}) manip)
      else if c = CHR ''a'' then Some (on_stream (setf {ios_fixed, ios_scientific}) manip)
      else if c = CHR ''A'' then
        Some (on_stream (setf {ios_fixed, ios_scientific, ios_uppercase}) manip)
      else None)"

text \<open>
  After a \<^verbatim>\<open>break\<close> without specifier: \<^verbatim>\<open>if (++i == text_.size())\<close> the
  specifier is missing, otherwise the loop goes on at the next character.
\<close>

definition after_break ::
  "Manip \<Rightarrow> nat \<Rightarrow> pstate \<Rightarrow> failure + (bool \<times> Manip \<times> nat \<times> pstate)" where
  "after_break manip i st =
     (if Suc i = length (p_text st) then Inl (Failed kMissingSpecifier)
      else Inr (False, manip, Suc i, st))"

definition after_SetArg ::
  "failure + (Manip \<times> nat \<times> pstate) \<Rightarrow> failure + (bool \<times> Manip \<times> nat \<times> pstate)" where
  "after_SetArg r = (case r of Inl e \<Rightarrow> Inl e | Inr (manip, i, st) \<Rightarrow> Inr (False, manip, i, st))"

text \<open>
  The \<^verbatim>\<open>default\<close> case for a digit (a literal width), the case \<^verbatim>\<open>.\<close> (precision)
  and the case \<^verbatim>\<open>_\<close> (fill character), each with what follows the switch.
\<close>

definition width_case ::
  "Manip \<Rightarrow> nat \<Rightarrow> pstate \<Rightarrow> failure + (bool \<times> Manip \<times> nat \<times> pstate)" where
  "width_case manip i st =
     (let end = EndNumber (p_text st) i
      in if end = length (p_text st) then Inl (Failed kMissingSpecifier)
         else (case ParseNumber_streamsize (p_text st) i end of
                 Inl e \<Rightarrow> Inl (Failed e)
               | Inr width \<Rightarrow>
                   Inr (False, on_stream (\<lambda>os. os\<lparr>os_width := width\<rparr>) manip, end, st)))"

definition precision_case ::
  "nat \<Rightarrow> Manip \<Rightarrow> nat \<Rightarrow> pstate \<Rightarrow> failure + (bool \<times> Manip \<times> nat \<times> pstate)" where
  "precision_case idx manip i st =
     (if Suc i = length (p_text st) then Inl (Failed kMissingSpecifier)
      else if IsPositiveNumber (char_at (p_text st) (Suc i)) then
        (let end = EndNumber (p_text st) (Suc i)
         in if end = length (p_text st) then Inl (Failed kMissingSpecifier)
            else (case ParseNumber_streamsize (p_text st) (Suc i) end of
                    Inl e \<Rightarrow> Inl (Failed e)
                  | Inr precision \<Rightarrow>
                      Inr (False, on_stream (\<lambda>os. os\<lparr>os_precision := precision\<rparr>) manip,
                           end, st)))
      else if char_at (p_text st) (Suc i) = CHR ''*'' then
        after_SetArg (SetArg kPrecision idx manip (Suc i) st)
      else after_break (on_stream (\<lambda>os. os\<lparr>os_precision := 0\<rparr>) manip) (Suc i) st)"

definition fill_case ::
  "Manip \<Rightarrow> nat \<Rightarrow> pstate \<Rightarrow> failure + (bool \<times> Manip \<times> nat \<times> pstate)" where
  "fill_case manip i st =
     (if Suc i = length (p_text st) then Inl (Failed kMissingFillCharacter)
      else after_break
             (on_stream (\<lambda>os. os\<lparr>os_fill := char_at (p_text st) (Suc i)\<rparr>) manip) (Suc i) st)"

text \<open>
  One pass through the body of the loop \<^verbatim>\<open>for (;; c = text_[i]) switch (c)\<close> at index
  \<open>i\<close>. The result is an error, or the flag \<^verbatim>\<open>got_specifier\<close> with the \<^verbatim>\<open>Manip\<close>, the
  index and the state with which the loop goes on (or, with the flag set, ends).
  The cases \<^verbatim>\<open>_\<close>, \<^verbatim>\<open>.\<close> and \<^verbatim>\<open>default\<close> (a literal width) are the
  definitions above.
\<close>

definition directive_step ::
  "nat \<Rightarrow> Manip \<Rightarrow> nat \<Rightarrow> pstate \<Rightarrow> failure + (bool \<times> Manip \<times> nat \<times> pstate)" where
  "directive_step idx manip i st =
     (let c = char_at (p_text st) i
      in if flag_case c manip \<noteq> None then after_break (the (flag_case c manip)) i st
         else if c = CHR ''_'' then fill_case manip i st
         else if c = CHR ''/'' then after_SetArg (SetArg kFill idx manip i st)
         else if c = CHR ''*'' then after_SetArg (SetArg kWidth idx manip i st)
         else if c = CHR ''.'' then precision_case idx manip i st
         else if c = CHR ''~'' then after_SetArg (SetArg kLocale idx manip i st)
         else if specifier_case c manip \<noteq> None
           then Inr (True, the (specifier_case c manip), Suc i, st)
         else if \<not> isdigit c then Inl (Failed kUnknownSpecifier)
         else width_case manip i st)"

subsection \<open>Progress of the scanning functions\<close>

text \<open>
  Each function that scans the format string returns an index beyond the one it was
  given and leaves the text unchanged; this is what makes the loops terminate.
\<close>

lemma char_at_nonzero: "char_at s k \<noteq> CHR 0x00 \<Longrightarrow> k < length s"
  by (auto simp: char_at_def split: if_splits)

lemma EndNumber_gt: "start < EndNumber s start"
  by (induction s start rule: EndNumber.induct) (subst EndNumber.simps, auto)

lemma EndNumber_le: "start < length s \<Longrightarrow> EndNumber s start \<le> length s"
  by (induction s start rule: EndNumber.induct) (subst EndNumber.simps, auto)

lemma EndArgumentNumber_gt: "EndArgumentNumber s start = Some e \<Longrightarrow> start < e"
  using EndNumber_gt [of start s]
  by (auto simp: EndArgumentNumber_def Let_def split: if_splits)

lemma SetArg_progress:
  "SetArg set_these idx manip index st = Inr (manip', index', st') \<Longrightarrow>
   index < index' \<and> p_text st' = p_text st"
  by (auto simp: SetArg_def Let_def HandleArgumentNumber_def
      split: if_splits option.splits sum.splits dest: EndArgumentNumber_gt)

lemma flag_case_in_string: "flag_case (char_at s k) m \<noteq> None \<Longrightarrow> k < length s"
  by (rule char_at_nonzero) (auto simp: flag_case_def)

lemma specifier_case_in_string: "specifier_case (char_at s k) m \<noteq> None \<Longrightarrow> k < length s"
  by (rule char_at_nonzero) (auto simp: specifier_case_def)

lemma isdigit_in_string: "isdigit (char_at s k) \<Longrightarrow> k < length s"
  by (rule char_at_nonzero) (auto simp: isdigit_def)


lemma after_break_progress:
  "after_break manip i st = Inr (got, manip', i', st') \<Longrightarrow>
   i < i' \<and> p_text st' = p_text st \<and> \<not> got"
  by (auto simp: after_break_def split: if_splits)

lemma after_SetArg_progress:
  "after_SetArg (SetArg set_these idx manip i st) = Inr (got, manip', i', st') \<Longrightarrow>
   i < i' \<and> p_text st' = p_text st \<and> \<not> got"
  by (auto simp: after_SetArg_def split: sum.splits dest: SetArg_progress)

lemma width_case_progress:
  "width_case manip i st = Inr (got, manip', i', st') \<Longrightarrow>
   i < i' \<and> p_text st' = p_text st \<and> \<not> got"
  using EndNumber_gt [of i "p_text st"]
  by (auto simp: width_case_def Let_def split: if_splits sum.splits)

lemma fill_case_progress:
  "fill_case manip i st = Inr (got, manip', i', st') \<Longrightarrow>
   i < i' \<and> p_text st' = p_text st \<and> \<not> got"
  by (auto simp: fill_case_def split: if_splits dest!: after_break_progress)

lemma precision_case_progress:
  "precision_case idx manip i st = Inr (got, manip', i', st') \<Longrightarrow>
   i < i' \<and> p_text st' = p_text st \<and> \<not> got"
  using EndNumber_gt [of "Suc i" "p_text st"]
  by (auto simp: precision_case_def Let_def split: if_splits sum.splits
      dest!: after_break_progress after_SetArg_progress)

lemma directive_step_in_string:
  "directive_step idx manip i st = Inr r \<Longrightarrow> i < length (p_text st)"
  by (rule char_at_nonzero)
     (auto simp: directive_step_def Let_def flag_case_def specifier_case_def isdigit_def
       split: if_splits)

lemma directive_step_progress:
  assumes "directive_step idx manip i st = Inr (got, manip', i', st')"
  shows "i < i' \<and> i < length (p_text st) \<and> p_text st' = p_text st"
  using assms directive_step_in_string [OF assms]
  by (auto simp: directive_step_def Let_def split: if_splits
      dest!: after_break_progress after_SetArg_progress width_case_progress
        fill_case_progress precision_case_progress)

text \<open>The loop \<^verbatim>\<open>for (;; c = text_[i])\<close> itself.\<close>

function directive_loop ::
  "nat \<Rightarrow> Manip \<Rightarrow> nat \<Rightarrow> pstate \<Rightarrow> failure + (Manip \<times> nat \<times> pstate)" where
  "directive_loop idx manip i st =
     (case directive_step idx manip i st of
        Inl e \<Rightarrow> Inl e
      | Inr (got_specifier, manip1, i1, st1) \<Rightarrow>
          if got_specifier then Inr (manip1, i1, st1)
          else directive_loop idx manip1 i1 st1)"
  by pat_completeness auto
termination
proof (relation "measure (\<lambda>(idx, manip, i, st). length (p_text st) - i)")
  show "wf (measure (\<lambda>(idx, manip, i, st). length (p_text st) - i))"
    by simp
next
  fix idx manip i st r got rest manip1 rest2 i1 st1
  assume "directive_step idx manip i st = Inr r" "(got, rest) = r" "(manip1, rest2) = rest"
    "(i1, st1) = rest2" "\<not> got"
  then have "directive_step idx manip i st = Inr (got, manip1, i1, st1)"
    by simp
  from directive_step_progress [OF this]
  show "((idx, manip1, i1, st1), idx, manip, i, st)
        \<in> measure (\<lambda>(idx, manip, i, st). length (p_text st) - i)"
    by auto
qed

declare directive_loop.simps [simp del]


lemma directive_loop_progress:
  "directive_loop idx manip i st = Inr (manip', i', st') \<Longrightarrow>
   i < i' \<and> p_text st' = p_text st"
proof (induction idx manip i st rule: directive_loop.induct)
  case (1 idx manip i st)
  from "1.prems" obtain got manip1 i1 st1 where
    step: "directive_step idx manip i st = Inr (got, manip1, i1, st1)"
    by (subst (asm) directive_loop.simps) (auto split: sum.splits)
  note prog = directive_step_progress [OF step]
  show ?case
  proof (cases got)
    case True
    with "1.prems" step prog show ?thesis
      by (subst (asm) directive_loop.simps) auto
  next
    case False
    with "1.prems" step have "directive_loop idx manip1 i1 st1 = Inr (manip', i', st')"
      by (subst (asm) directive_loop.simps) auto
    from "1.IH" [OF step refl refl refl _ this] False prog show ?thesis
      by auto
  qed
qed

subsection \<open>The scan for conversion specifications\<close>

text \<open>
  \<^verbatim>\<open>text_.find('%', pos)\<close> (\<open>None\<close> is \<^verbatim>\<open>string::npos\<close>) and \<^verbatim>\<open>text_.erase(k, 1)\<close>.
\<close>

definition find_char :: "char \<Rightarrow> string \<Rightarrow> nat \<Rightarrow> nat option" where
  "find_char c s pos =
     (if c \<in> set (drop pos s)
      then Some (pos + length (takeWhile (\<lambda>x. x \<noteq> c) (drop pos s)))
      else None)"

definition erase1 :: "string \<Rightarrow> nat \<Rightarrow> string" where
  "erase1 s k = take k s @ drop (Suc k) s"

text \<open>
  The block of \<^verbatim>\<open>ParseFormat\<close> that reads an explicit argument number
  \<^verbatim>\<open>[1-9][0-9]*$\<close> in front of the modifiers. The result is \<^verbatim>\<open>unknown_number\<close>, the
  index and the state.
\<close>

definition directive_head :: "nat \<Rightarrow> nat \<Rightarrow> pstate \<Rightarrow> failure + (bool \<times> nat \<times> pstate)" where
  "directive_head idx i st =
     (case EndArgumentNumber (p_text st) i of
        None \<Rightarrow> Inr (True, i, st)
      | Some end \<Rightarrow>
          if end = length (p_text st) then Inl (Failed kMissingSpecifier)
          else (case ParseNumber (p_text st) i (end - 1) of
                  Inl e \<Rightarrow> Inl (Failed e)
                | Inr number \<Rightarrow>
                    (case HandleArgumentNumber (unat number - 1) st of
                       None \<Rightarrow> Inl Exception
                     | Some st1 \<Rightarrow>
                         Inr (False, end,
                              st1\<lparr>p_args := SetIndirect (unat number - 1) kArg idx
                                                (p_args st1)\<rparr>))))"

text \<open>
  The body of the \<^verbatim>\<open>while\<close> loop of \<^verbatim>\<open>ParseFormat\<close> for a conversion specification
  that starts with the \<^verbatim>\<open>%\<close> at \<open>start\<close>: the new \<^verbatim>\<open>Manip\<close> is pushed to
  \<^verbatim>\<open>format_\<close>; the code changes it through the pointer \<^verbatim>\<open>manip\<close>, the model passes its
  value along and stores it at its position when the specification is complete.
\<close>

definition directive :: "nat \<Rightarrow> nat \<Rightarrow> pstate \<Rightarrow> failure + (nat \<times> pstate)" where
  "directive start i st =
     (let idx = length (p_format st);
          st1 = st\<lparr>p_borders := p_borders st @ [start],
                  p_format := p_format st @ [new_Manip]\<rparr>
      in case directive_head idx i st1 of
           Inl e \<Rightarrow> Inl e
         | Inr (unknown_number, i2, st2) \<Rightarrow>
             (case directive_loop idx new_Manip i2 st2 of
                Inl e \<Rightarrow> Inl e
              | Inr (manip, i3, st3) \<Rightarrow>
                  let st4 = st3\<lparr>p_format := (p_format st3)[idx := manip]\<rparr>;
                      st5 = (if unknown_number
                             then st4\<lparr>define_queue := define_queue st4
                                        @ [\<lparr>r_set_these = kArg, r_manip = idx\<rparr>]\<rparr>
                             else st4)
                  in Inr (i3, st5\<lparr>p_borders := p_borders st5 @ [i3]\<rparr>)))"

lemma directive_head_progress:
  "directive_head idx i st = Inr (u, i', st') \<Longrightarrow> i \<le> i' \<and> p_text st' = p_text st"
  by (auto simp: directive_head_def Let_def HandleArgumentNumber_def
      split: option.splits if_splits sum.splits dest: EndArgumentNumber_gt)

lemma directive_progress:
  "directive start i st = Inr (i', st') \<Longrightarrow> i < i' \<and> p_text st' = p_text st"
  by (auto simp: directive_def Let_def split: sum.splits if_splits
      dest!: directive_head_progress directive_loop_progress)

lemma takeWhile_stops: "c \<in> set xs \<Longrightarrow> length (takeWhile (\<lambda>x. x \<noteq> c) xs) < length xs"
  by (induction xs) auto

lemma find_char_bounds: "find_char c s pos = Some k \<Longrightarrow> pos \<le> k \<and> k < length s"
  using takeWhile_stops [of c "drop pos s"]
  by (auto simp: find_char_def split: if_splits)

text \<open>
  The loop \<^verbatim>\<open>while (i = text_.find('%', i), i != string::npos)\<close>. A failure carries
  the error code and the text as it stands then (\<^verbatim>\<open>%%\<close> pairs before the failure are
  already collapsed in \<^verbatim>\<open>text_\<close>).
\<close>

function ParseFormat_loop :: "nat \<Rightarrow> pstate \<Rightarrow> (failure \<times> string) + pstate" where
  "ParseFormat_loop i st =
     (case find_char CHR ''%'' (p_text st) i of
        None \<Rightarrow> Inr st
      | Some start \<Rightarrow>
          if Suc start = length (p_text st) then Inl (Failed kTrailingPercentage, p_text st)
          else if char_at (p_text st) (Suc start) = CHR ''%'' then
            (let st1 = st\<lparr>p_text := erase1 (p_text st) (Suc start)\<rparr>
             in if Suc start \<noteq> length (p_text st1) then ParseFormat_loop (Suc start) st1
                else Inr st1)
          else (case directive start (Suc start) st of
                  Inl e \<Rightarrow> Inl (e, p_text st)
                | Inr (i1, st1) \<Rightarrow> ParseFormat_loop i1 st1))"
  by pat_completeness auto
termination
proof (relation "measure (\<lambda>(i, st). length (p_text st) - i)")
  show "wf (measure (\<lambda>(i, st). length (p_text st) - i))"
    by simp
next
  fix i st start st1
  assume "find_char CHR ''%'' (p_text st) i = Some start"
    and "st1 = st\<lparr>p_text := erase1 (p_text st) (Suc start)\<rparr>"
    and "Suc start \<noteq> length (p_text st)"
  then show "((Suc start, st1), i, st) \<in> measure (\<lambda>(i, st). length (p_text st) - i)"
    by (auto simp: erase1_def dest!: find_char_bounds)
next
  fix i st start r i1 st1
  assume "find_char CHR ''%'' (p_text st) i = Some start"
    and "directive start (Suc start) st = Inr r" and "(i1, st1) = r"
  then show "((i1, st1), i, st) \<in> measure (\<lambda>(i, st). length (p_text st) - i)"
    by (auto dest!: find_char_bounds directive_progress [of start "Suc start" st i1 st1])
qed

declare ParseFormat_loop.simps [simp del]

subsection \<open>Argument numbers for the postponed requests\<close>

text \<open>
  The inner loop \<^verbatim>\<open>while ((argnum < specified.size()) && specified[argnum]) ++argnum\<close>
  and the loop over \<^verbatim>\<open>define_queue\<close> around it.
\<close>

function skip_specified :: "bool list \<Rightarrow> nat \<Rightarrow> nat" where
  "skip_specified sp argnum =
     (if argnum < length sp \<and> sp ! argnum then skip_specified sp (Suc argnum) else argnum)"
  by pat_completeness auto
termination
  by (relation "measure (\<lambda>(sp, argnum). length sp - argnum)") auto

declare skip_specified.simps [simp del]

function allocate ::
  "bool list \<Rightarrow> nat \<Rightarrow> References list \<Rightarrow> References list list \<Rightarrow> References list list" where
  "allocate sp argnum [] as = as"
| "allocate sp argnum (it # queue) as =
     (let argnum1 = skip_specified sp argnum
      in allocate sp (Suc argnum1) queue
           (SetIndirect argnum1 (r_set_these it) (r_manip it) as))"
  by pat_completeness auto
termination
  by (relation "measure (\<lambda>(sp, argnum, queue, as). length queue)") auto

text \<open>
  \<^verbatim>\<open>Format::ParseFormat\<close> on the format string \<open>text\<close>, in a run in which
  \<^verbatim>\<open>resize\<close> grants sizes up to \<open>vmax\<close>.
\<close>

definition ParseFormat :: "nat \<Rightarrow> string \<Rightarrow> (failure \<times> string) + pstate" where
  "ParseFormat vmax text =
     (case ParseFormat_loop 0
             \<lparr>vector_max = vmax, p_text = text, p_format = [], p_borders = [], p_args = [],
              specified = [], define_queue = []\<rparr> of
        Inl e \<Rightarrow> Inl e
      | Inr st \<Rightarrow>
          if define_queue st \<noteq> [] then
            (let total_args = length (define_queue st) + length (filter (\<lambda>b. b) (specified st))
             in Inr (st\<lparr>p_args := allocate (specified st) 0 (define_queue st)
                                    (resize (p_args st) total_args [])\<rparr>))
          else Inr st)"

section \<open>The Format object\<close>

text \<open>
  The three sink pointers \<^verbatim>\<open>append_\<close>, \<^verbatim>\<open>file_\<close> and \<^verbatim>\<open>ostream_\<close> of \<^verbatim>\<open>Parse\<close>: every
  constructor sets at most one of them.
\<close>

datatype sink = NoSink | ToString | ToFile | ToStream

text \<open>
  The objects behind the sink pointers are outside the library. The embedding keeps
  what the library can observe of them: the string appended to, the characters a
  \<^verbatim>\<open>FILE\<close> or stream has taken, how many more characters it takes (\<open>None\<close>: any
  number) and whether flushing it succeeds.
\<close>

record device =
  dev_string :: string
  dev_taken :: string
  dev_room :: "nat option"
  dev_flush_ok :: bool

text \<open>
  \<^verbatim>\<open>Parse\<close> with its members \<^verbatim>\<open>format_\<close>, \<^verbatim>\<open>borders_\<close>, \<^verbatim>\<open>args_\<close>, \<^verbatim>\<open>current_arg_\<close> (an
  iterator into \<^verbatim>\<open>args_\<close>, here its position) and \<^verbatim>\<open>simple_\<close>.
\<close>

record Parse =
  pa_format :: "Manip list"
  pa_borders :: "nat list"
  pa_args :: "References list list"
  pa_current_arg :: nat
  pa_simple :: bool
  pa_sink :: sink

text \<open>
  \<^verbatim>\<open>Format\<close> with its members \<^verbatim>\<open>abort_\<close>, \<^verbatim>\<open>success_\<close> (\<open>None\<close> is the null pointer,
  \<open>Some b\<close> a pointer to a \<^verbatim>\<open>bool\<close> that holds \<open>b\<close>), \<^verbatim>\<open>error_\<close>, \<^verbatim>\<open>count_\<close> (\<open>None\<close>
  while it is not initialised), \<^verbatim>\<open>text_\<close>, \<^verbatim>\<open>parse_\<close> (\<open>None\<close> is the null pointer) and
  \<^verbatim>\<open>flags_\<close>. The field \<open>f_device\<close> is not a member: it is the state of the object
  behind the sink pointer.
\<close>

record Format =
  f_abort :: bool
  f_success :: "bool option"
  f_error :: Code
  f_count :: "nat option"
  f_text :: string
  f_parse :: "Parse option"
  f_flags :: Special
  f_device :: device

text \<open>\<^verbatim>\<open>if (success_ != NULL) *success_ = b\<close>.\<close>

definition set_success :: "bool \<Rightarrow> Format \<Rightarrow> Format" where
  "set_success b f = f\<lparr>f_success := map_option (\<lambda>_. b) (f_success f)\<rparr>"

text \<open>
  \<^verbatim>\<open>Format::Throw\<close>. With \<^verbatim>\<open>abort_\<close> set the diagnostic is printed and the process is
  aborted: the result \<open>Inl (Failed error)\<close>. Otherwise the error is recorded, the success
  flag is cleared and \<^verbatim>\<open>parse_\<close> is deleted.
\<close>

definition Throw :: "Code \<Rightarrow> Format \<Rightarrow> failure + Format" where
  "Throw error f =
     (if f_abort f then Inl (Failed error)
      else Inr ((set_success False (f\<lparr>f_error := error\<rparr>))\<lparr>f_parse := None\<rparr>))"

definition flush :: "Format \<Rightarrow> bool" where
  "flush f = HaveBits (f_flags f) Special_kFlush"

text \<open>Writing to the \<^verbatim>\<open>FILE\<close> or stream: the number of characters taken and the device.\<close>

definition dev_write :: "string \<Rightarrow> device \<Rightarrow> nat \<times> device" where
  "dev_write s dev =
     (let n = (case dev_room dev of None \<Rightarrow> length s | Some r \<Rightarrow> min r (length s))
      in (n, dev\<lparr>dev_taken := dev_taken dev @ take n s,
                  dev_room := map_option (\<lambda>r. r - n) (dev_room dev)\<rparr>))"

text \<open>The three overloads of \<^verbatim>\<open>Format::OutputInternal\<close>.\<close>

definition OutputInternal_string :: "Format \<Rightarrow> failure + Format" where
  "OutputInternal_string f =
     Inr (set_success True
           (f\<lparr>f_device := (f_device f)\<lparr>dev_string := dev_string (f_device f) @ f_text f\<rparr>,
              f_error := kNone\<rparr>))"

definition OutputInternal_file :: "Format \<Rightarrow> failure + Format" where
  "OutputInternal_file f =
     (let f1 = f\<lparr>f_error := kNone, f_count := Some 0\<rparr>
      in if f_text f1 = [] then Inr (set_success True f1)
         else let n = fst (dev_write (f_text f1) (f_device f1));
                  f2 = f1\<lparr>f_count := Some n,
                          f_device := snd (dev_write (f_text f1) (f_device f1))\<rparr>
              in if n < length (f_text f2)
                 then map_sum id (set_success False) (Throw kWriteFailed f2)
                 else if flush f2 \<and> \<not> dev_flush_ok (f_device f2)
                 then map_sum id (set_success False) (Throw kFlushFailed f2)
                 else Inr (set_success True f2))"

definition OutputInternal_stream :: "Format \<Rightarrow> failure + Format" where
  "OutputInternal_stream f =
     (let f1 = f\<lparr>f_error := kNone\<rparr>
      in if f_text f1 = [] then Inr (set_success True f1)
         else let n = fst (dev_write (f_text f1) (f_device f1));
                  f2 = f1\<lparr>f_device := snd (dev_write (f_text f1) (f_device f1))\<rparr>
              in if n < length (f_text f2)
                 then map_sum id (set_success False) (Throw kWriteFailed f2)
                 else if flush f2 \<and> \<not> dev_flush_ok (f_device f2)
                 then map_sum id (set_success False) (Throw kFlushFailed f2)
                 else Inr (set_success True f2))"

text \<open>
  \<^verbatim>\<open>Format::InitialOutput\<close>. It is called while \<^verbatim>\<open>parse_\<close> is set and reads the sink
  from it.
\<close>

definition InitialOutput :: "Format \<Rightarrow> failure + Format" where
  "InitialOutput f =
     (let f1 = (if HaveBits (f_flags f) Special_kNewline
                then f\<lparr>f_text := f_text f @ [CHR 0x0A]\<rparr> else f);
          r = (case map_option pa_sink (f_parse f1) of
                 Some ToString \<Rightarrow> OutputInternal_string f1
               | Some ToFile \<Rightarrow> OutputInternal_file f1
               | Some ToStream \<Rightarrow> OutputInternal_stream f1
               | _ \<Rightarrow> Inr (set_success True (f1\<lparr>f_error := kNone\<rparr>)))
      in map_sum id (\<lambda>f2. f2\<lparr>f_parse := None\<rparr>) r)"

subsection \<open>Assembling the result\<close>

text \<open>
  The replacement of \<^verbatim>\<open>FinishInsertingArgs\<close> for the extension \<^verbatim>\<open>kPlusSpace\<close>:
  \<^verbatim>\<open>plus = string_with_plus.find('+')\<close> and, if found, \<^verbatim>\<open>string_with_plus[plus] = ' '\<close>.
\<close>

definition string_with_plus :: "string \<Rightarrow> string" where
  "string_with_plus s =
     (case find_char CHR ''+'' s 0 of None \<Rightarrow> s | Some pos \<Rightarrow> s[pos := CHR '' ''])"

text \<open>What one pass of the loop of \<^verbatim>\<open>FinishInsertingArgs\<close> appends for a \<^verbatim>\<open>Manip\<close>.\<close>

definition manip_text :: "Manip \<Rightarrow> string" where
  "manip_text manip =
     (if m_extensions manip AND kIgnore \<noteq> Extensions_kNone then []
      else if m_extensions manip AND kPlusSpace = Extensions_kNone
      then os_str (m_ostream manip)
      else string_with_plus (os_str (m_ostream manip)))"

text \<open>
  \<^verbatim>\<open>result.append(text_, current_pos, *it - current_pos)\<close>: the difference is computed
  in \<^verbatim>\<open>size_type\<close>, and \<^verbatim>\<open>append\<close> takes at most the rest of the string.
\<close>

definition append_part :: "string \<Rightarrow> nat \<Rightarrow> nat \<Rightarrow> string" where
  "append_part text current_pos border =
     take (if current_pos \<le> border then border - current_pos
           else 2 ^ 64 - (current_pos - border))
       (drop current_pos text)"

text \<open>
  The loop of \<^verbatim>\<open>FinishInsertingArgs\<close> over \<^verbatim>\<open>format_\<close> and \<^verbatim>\<open>borders_\<close> (two borders
  for each \<^verbatim>\<open>Manip\<close>) and the rest of the text after it. The last equation stands for
  a border list that is too short, which the parser does not produce.
\<close>

fun assemble :: "string \<Rightarrow> nat \<Rightarrow> nat list \<Rightarrow> Manip list \<Rightarrow> string \<Rightarrow> string" where
  "assemble text current_pos (b # e # borders) (manip # formats) result =
     assemble text e borders formats
       (result @ append_part text current_pos b @ manip_text manip)"
| "assemble text current_pos borders [] result = result @ drop current_pos text"
| "assemble text current_pos borders (manip # formats) result = result"

definition FinishInsertingArgs :: "Format \<Rightarrow> failure + Format" where
  "FinishInsertingArgs f =
     (case f_parse f of
        None \<Rightarrow> Inr f
      | Some parse \<Rightarrow>
          InitialOutput
            (f\<lparr>f_text := assemble (f_text f) 0 (pa_borders parse) (pa_format parse) []\<rparr>))"

subsection \<open>Construction\<close>

text \<open>
  \<^verbatim>\<open>Format::Init(append, file, ostream)\<close> for a format string and
  \<^verbatim>\<open>Format::Init(append, file, ostream, format)\<close> for a \<^verbatim>\<open>bool\<close> or omitted format.
  \<open>vmax\<close> is the greatest size \<^verbatim>\<open>resize\<close> grants to the parser in this run; an
  exception of the parser leaves \<^verbatim>\<open>Init\<close> and the constructor.
\<close>

definition Init :: "nat \<Rightarrow> sink \<Rightarrow> Format \<Rightarrow> failure + Format" where
  "Init vmax snk f =
     (let f1 = (if f_abort f then f\<lparr>f_success := None\<rparr> else f)
      in case ParseFormat vmax (f_text f1) of
           Inl (Failed e, text) \<Rightarrow> Throw e (f1\<lparr>f_text := text\<rparr>)
         | Inl (Exception, text) \<Rightarrow> Inl Exception
         | Inr st \<Rightarrow>
             let parse = \<lparr>pa_format = p_format st, pa_borders = p_borders st,
                          pa_args = p_args st, pa_current_arg = 0, pa_simple = False,
                          pa_sink = snk\<rparr>;
                 f2 = f1\<lparr>f_text := p_text st, f_parse := Some parse\<rparr>
             in if pa_args parse = [] then InitialOutput f2
                else Inr (set_success False (f2\<lparr>f_error := kTooFewArguments\<rparr>)))"

definition Init_simple :: "sink \<Rightarrow> bool \<Rightarrow> Format \<Rightarrow> failure + Format" where
  "Init_simple snk format f =
     (let f1 = (if f_abort f then f\<lparr>f_success := None\<rparr> else f);
          parse = \<lparr>pa_format = [], pa_borders = [], pa_args = [], pa_current_arg = 0,
                   pa_simple = True, pa_sink = snk\<rparr>;
          f2 = f1\<lparr>f_parse := Some parse\<rparr>
      in if \<not> format then InitialOutput f2
         else Inr (set_success False (f2\<lparr>f_error := kTooFewArguments\<rparr>)))"

text \<open>
  The constructors. \<open>Format_report success\<close> stands for the constructors with a first
  parameter \<^verbatim>\<open>bool *success\<close>, \<open>Format_abort\<close> for those without; \<open>snk\<close> and \<open>dev\<close> are
  the output parameter and the object it designates, \<open>vmax\<close> is as for \<^verbatim>\<open>Init\<close>. The constructors leave
  \<^verbatim>\<open>error_\<close> and \<^verbatim>\<open>count_\<close> uninitialised; \<^verbatim>\<open>Init\<close> assigns \<^verbatim>\<open>error_\<close> on every path.
\<close>

definition Format_report ::
  "nat \<Rightarrow> bool option \<Rightarrow> sink \<Rightarrow> device \<Rightarrow> string \<Rightarrow> Special \<Rightarrow> failure + Format" where
  "Format_report vmax success snk dev format flags =
     Init vmax snk \<lparr>f_abort = False, f_success = success, f_error = kNone, f_count = None,
               f_text = format, f_parse = None, f_flags = flags, f_device = dev\<rparr>"

definition Format_abort ::
  "nat \<Rightarrow> sink \<Rightarrow> device \<Rightarrow> string \<Rightarrow> Special \<Rightarrow> failure + Format" where
  "Format_abort vmax snk dev format flags =
     Init vmax snk \<lparr>f_abort = True, f_success = None, f_error = kNone, f_count = None,
               f_text = format, f_parse = None, f_flags = flags, f_device = dev\<rparr>"

definition Format_report_simple ::
  "bool option \<Rightarrow> sink \<Rightarrow> device \<Rightarrow> bool \<Rightarrow> Special \<Rightarrow> failure + Format" where
  "Format_report_simple success snk dev format flags =
     Init_simple snk format
       \<lparr>f_abort = False, f_success = success, f_error = kNone, f_count = None,
        f_text = [], f_parse = None, f_flags = flags, f_device = dev\<rparr>"

definition Format_abort_simple ::
  "sink \<Rightarrow> device \<Rightarrow> bool \<Rightarrow> Special \<Rightarrow> failure + Format" where
  "Format_abort_simple snk dev format flags =
     Init_simple snk format
       \<lparr>f_abort = True, f_success = None, f_error = kNone, f_count = None,
        f_text = [], f_parse = None, f_flags = flags, f_device = dev\<rparr>"

subsection \<open>Feeding arguments: \<^verbatim>\<open>operator%\<close>\<close>

text \<open>
  The five parts of the loop body of \<^verbatim>\<open>operator%\<close> for one entry of the current
  argument's list, in the order of the source. Each is guarded by its bit of
  \<^verbatim>\<open>set_these\<close>; a setter that fails ends the operator with its error.
\<close>

definition locale_part :: "arg \<Rightarrow> Flags \<Rightarrow> Manip \<Rightarrow> Code + Manip" where
  "locale_part a set_these manip =
     (if set_these AND kLocale \<noteq> Defines_kNone then
        (case SetLocale (m_ostream manip) a of
           Inl e \<Rightarrow> Inl e
         | Inr os \<Rightarrow> Inr (manip\<lparr>m_ostream := os, m_need := m_need manip AND NOT kLocale\<rparr>))
      else Inr manip)"

definition precision_part :: "arg \<Rightarrow> Flags \<Rightarrow> Manip \<Rightarrow> Code + Manip" where
  "precision_part a set_these manip =
     (if set_these AND kPrecision \<noteq> Defines_kNone then
        (case SetPrecision (m_ostream manip) a of
           Inl e \<Rightarrow> Inl e
         | Inr os \<Rightarrow> Inr (manip\<lparr>m_ostream := os, m_need := m_need manip AND NOT kPrecision\<rparr>))
      else Inr manip)"

definition width_part :: "arg \<Rightarrow> Flags \<Rightarrow> Manip \<Rightarrow> Code + Manip" where
  "width_part a set_these manip =
     (if set_these AND kWidth \<noteq> Defines_kNone then
        (case SetWidth (m_ostream manip) a of
           Inl e \<Rightarrow> Inl e
         | Inr os \<Rightarrow> Inr (manip\<lparr>m_ostream := os, m_need := m_need manip AND NOT kWidth\<rparr>))
      else Inr manip)"

definition fill_part :: "arg \<Rightarrow> Flags \<Rightarrow> Manip \<Rightarrow> Code + Manip" where
  "fill_part a set_these manip =
     (if set_these AND kFill \<noteq> Defines_kNone then
        (case SetFill (m_ostream manip) a of
           Inl e \<Rightarrow> Inl e
         | Inr os \<Rightarrow> Inr (manip\<lparr>m_ostream := os, m_need := m_need manip AND NOT kFill\<rparr>))
      else Inr manip)"

definition arg_part :: "arg \<Rightarrow> Flags \<Rightarrow> Manip \<Rightarrow> Code + Manip" where
  "arg_part a set_these manip =
     (if set_these AND kArg = Defines_kNone then Inr manip
      else if m_need manip \<noteq> Defines_kNone then Inl kTooEarlyArgument
      else if m_extensions manip AND kIgnore \<noteq> Extensions_kNone then Inr manip
      else if m_extensions manip AND kStringNpos \<noteq> Extensions_kNone then
        (case StringNpos (m_ostream manip) a of
           Inl e \<Rightarrow> Inl e
         | Inr os \<Rightarrow> Inr (manip\<lparr>m_ostream := os\<rparr>))
      else
        (case StringStandard (m_ostream manip) a of
           Inl e \<Rightarrow> Inl e
         | Inr os \<Rightarrow> Inr (manip\<lparr>m_ostream := os\<rparr>)))"

text \<open>Going on after a part that did not fail.\<close>

definition and_then :: "'e + 'a \<Rightarrow> ('a \<Rightarrow> 'e + 'b) \<Rightarrow> 'e + 'b" where
  "and_then r k = (case r of Inl e \<Rightarrow> Inl e | Inr x \<Rightarrow> k x)"

text \<open>The loop body for the entry \<open>it\<close>, applied to the \<^verbatim>\<open>Manip\<close> it points to.\<close>

definition apply_reference :: "arg \<Rightarrow> References \<Rightarrow> Manip \<Rightarrow> Code + Manip" where
  "apply_reference a it manip =
     and_then (locale_part a (r_set_these it) manip) (\<lambda>manip1.
     and_then (precision_part a (r_set_these it) manip1) (\<lambda>manip2.
     and_then (width_part a (r_set_these it) manip2) (\<lambda>manip3.
     and_then (fill_part a (r_set_these it) manip3) (\<lambda>manip4.
     arg_part a (r_set_these it) manip4))))"

text \<open>The loop over the list \<^verbatim>\<open>*(parse->current_arg_)\<close>.\<close>

fun apply_defines :: "arg \<Rightarrow> References list \<Rightarrow> Manip list \<Rightarrow> Code + Manip list" where
  "apply_defines a [] formats = Inr formats"
| "apply_defines a (it # defines) formats =
     (case apply_reference a it (formats ! r_manip it) of
        Inl e \<Rightarrow> Inl e
      | Inr manip \<Rightarrow> apply_defines a defines (formats[r_manip it := manip]))"

text \<open>\<^verbatim>\<open>Format::operator%\<close>.\<close>

definition feed :: "Format \<Rightarrow> arg \<Rightarrow> failure + Format" where
  "feed f a =
     (case f_parse f of
        None \<Rightarrow> if f_error f = kNone then Throw kTooManyArguments f else Inr f
      | Some parse \<Rightarrow>
          if pa_simple parse then
            (case StringStandard new_ostringstream a of
               Inl e \<Rightarrow> Throw e f
             | Inr os \<Rightarrow> InitialOutput (f\<lparr>f_text := os_str os\<rparr>))
          else
            (case apply_defines a (pa_args parse ! pa_current_arg parse) (pa_format parse) of
               Inl e \<Rightarrow> Throw e f
             | Inr formats \<Rightarrow>
                 let parse1 = parse\<lparr>pa_format := formats,
                                   pa_current_arg := Suc (pa_current_arg parse)\<rparr>;
                     f1 = f\<lparr>f_parse := Some parse1\<rparr>
                 in if pa_current_arg parse1 = length (pa_args parse1)
                    then FinishInsertingArgs f1 else Inr f1))"

text \<open>
  An expression \<^verbatim>\<open>Format(...) % a1 % ... % an\<close>: the arguments are fed one after the
  other; nothing more happens once the process is aborted.
\<close>

fun feeds :: "failure + Format \<Rightarrow> arg list \<Rightarrow> failure + Format" where
  "feeds r [] = r"
| "feeds r (a # as) = feeds (and_then r (\<lambda>f. feed f a)) as"

subsection \<open>Reading the result\<close>

definition Check :: "Format \<Rightarrow> failure + Format" where
  "Check f = (if f_parse f \<noteq> None then Throw kTooFewArguments f else Inr f)"

text \<open>
  \<^verbatim>\<open>str()\<close> (also behind \<^verbatim>\<open>operator std::string\<close>, \<^verbatim>\<open>StringReference()\<close> and
  \<^verbatim>\<open>c_str()\<close>), \<^verbatim>\<open>size()\<close> and \<^verbatim>\<open>empty()\<close>: each calls \<^verbatim>\<open>Check()\<close> first, which may
  change the object, and then reads \<^verbatim>\<open>text_\<close>.
\<close>

definition str :: "Format \<Rightarrow> failure + (string \<times> Format)" where
  "str f = map_sum id (\<lambda>f1. (f_text f1, f1)) (Check f)"

definition size_of :: "Format \<Rightarrow> failure + (nat \<times> Format)" where
  "size_of f = map_sum id (\<lambda>f1. (length (f_text f1), f1)) (Check f)"

definition empty_of :: "Format \<Rightarrow> failure + (bool \<times> Format)" where
  "empty_of f = map_sum id (\<lambda>f1. (f_text f1 = [], f1)) (Check f)"

definition error :: "Format \<Rightarrow> Code" where
  "error f = f_error f"


section \<open>Example arguments\<close>

text \<open>
  Arguments for the concrete formats below. Modelled from the C++ standard library
  (not part of the repository): a \<^verbatim>\<open>char\<close> and a character string are inserted as
  their characters, padded to the field width.
\<close>

definition char_arg :: "char \<Rightarrow> arg" where
  "char_arg c = \<lparr>val = VChar (of_nat (of_char c)), put = put_text [c]\<rparr>"

definition string_arg :: "string \<Rightarrow> arg" where
  "string_arg s = \<lparr>val = VOther, put = put_text s\<rparr>"

text \<open>A device that is not written to (the constructors without output parameter).\<close>

definition no_device :: device where
  "no_device = \<lparr>dev_string = [], dev_taken = [], dev_room = None, dev_flush_ok = True\<rparr>"

text \<open>The string read with \<^verbatim>\<open>str()\<close> from the object an expression yields.\<close>

definition text_of :: "failure + Format \<Rightarrow> failure + string" where
  "text_of r = map_sum id fst (and_then r str)"


section \<open>Failure modes of the parser\<close>

text \<open>
  The error codes with which \<^verbatim>\<open>ParseFormat\<close> calls \<^verbatim>\<open>Throw\<close>, traced through every
  function it calls.
\<close>

lemma ParseNumber_loop_error:
  "ParseNumber_loop text result start end = Inl e \<Longrightarrow> e = kNumberOverflow"
proof (induction "text" result start "end" rule: ParseNumber_loop.induct)
  case (1 t r s en)
  from "1.prems" show ?case
    by (subst (asm) ParseNumber_loop.simps) (auto simp: Let_def split: if_splits intro: "1.IH")
qed

lemma ParseNumber_sloop_error:
  "ParseNumber_sloop text result start end = Inl e \<Longrightarrow> e = kNumberOverflow"
proof (induction "text" result start "end" rule: ParseNumber_sloop.induct)
  case (1 t r s en)
  from "1.prems" show ?case
    by (subst (asm) ParseNumber_sloop.simps) (auto simp: Let_def split: if_splits intro: "1.IH")
qed

definition parser_errors :: "Code set" where
  "parser_errors = {kTrailingPercentage, kMissingSpecifier, kUnknownSpecifier,
                    kMissingFillCharacter, kNumberOverflow}"

lemma SetArg_error: "SetArg set_these idx manip index st = Inl (Failed e) \<Longrightarrow> e \<in> parser_errors"
  by (auto simp: SetArg_def ParseNumber_def Let_def parser_errors_def
      split: if_splits option.splits sum.splits dest: ParseNumber_loop_error)

lemma after_SetArg_error:
  "after_SetArg (SetArg set_these idx manip index st) = Inl (Failed e) \<Longrightarrow> e \<in> parser_errors"
  by (auto simp: after_SetArg_def split: sum.splits dest: SetArg_error)

lemma after_break_error: "after_break manip i st = Inl (Failed e) \<Longrightarrow> e \<in> parser_errors"
  by (auto simp: after_break_def parser_errors_def split: if_splits)

lemma width_case_error: "width_case manip i st = Inl (Failed e) \<Longrightarrow> e \<in> parser_errors"
  by (auto simp: width_case_def ParseNumber_streamsize_def Let_def parser_errors_def
      split: if_splits sum.splits dest: ParseNumber_sloop_error)

lemma fill_case_error: "fill_case manip i st = Inl (Failed e) \<Longrightarrow> e \<in> parser_errors"
  by (auto simp: fill_case_def after_break_def parser_errors_def split: if_splits)

lemma precision_case_error: "precision_case idx manip i st = Inl (Failed e) \<Longrightarrow> e \<in> parser_errors"
  by (auto simp: precision_case_def ParseNumber_streamsize_def Let_def
      split: if_splits sum.splits
      dest: ParseNumber_sloop_error after_SetArg_error after_break_error)
     (auto simp: parser_errors_def dest: ParseNumber_sloop_error)

lemma directive_step_error: "directive_step idx manip i st = Inl (Failed e) \<Longrightarrow> e \<in> parser_errors"
  by (auto simp: directive_step_def Let_def split: if_splits
      dest: after_SetArg_error after_break_error width_case_error fill_case_error
        precision_case_error)
     (auto simp: parser_errors_def)

lemma directive_loop_error:
  "directive_loop idx manip i st = Inl (Failed e) \<Longrightarrow> e \<in> parser_errors"
proof (induction idx manip i st rule: directive_loop.induct)
  case (1 idx manip i st)
  show ?case
  proof (cases "directive_step idx manip i st")
    case (Inl e')
    with "1.prems" have "e' = Failed e"
      by (subst (asm) directive_loop.simps) simp
    with Inl show ?thesis
      by (simp add: directive_step_error)
  next
    case (Inr r)
    obtain got manip1 i1 st1 where r: "r = (got, manip1, i1, st1)"
      by (cases r) auto
    from "1.prems" Inr r have got: "\<not> got"
      and rec: "directive_loop idx manip1 i1 st1 = Inl (Failed e)"
      by (subst (asm) directive_loop.simps, auto split: if_splits)+
    from "1.IH" [OF Inr [unfolded r] refl refl refl got rec] show ?thesis .
  qed
qed

lemma directive_head_error: "directive_head idx i st = Inl (Failed e) \<Longrightarrow> e \<in> parser_errors"
  by (auto simp: directive_head_def ParseNumber_def Let_def parser_errors_def
      split: if_splits option.splits sum.splits dest: ParseNumber_loop_error)

lemma directive_error: "directive start i st = Inl (Failed e) \<Longrightarrow> e \<in> parser_errors"
  by (auto simp: directive_def Let_def split: sum.splits
      dest: directive_head_error directive_loop_error)

lemma ParseFormat_loop_error: "ParseFormat_loop i st = Inl (Failed e, t) \<Longrightarrow> e \<in> parser_errors"
proof (induction i st rule: ParseFormat_loop.induct)
  case (1 i st)
  from "1.prems" show ?case
    by (subst (asm) ParseFormat_loop.simps)
       (auto simp: Let_def parser_errors_def[symmetric]
         split: option.splits if_splits sum.splits
         dest: directive_error intro: "1.IH", auto simp: parser_errors_def)
qed

lemma ParseFormat_error: "ParseFormat vmax text = Inl (Failed e, t) \<Longrightarrow> e \<in> parser_errors"
  by (auto simp: ParseFormat_def Let_def split: sum.splits if_splits
      dest: ParseFormat_loop_error)

section \<open>The space modifier\<close>

text \<open>
  Both effects of the case for the space character: the extension \<^verbatim>\<open>kPlusSpace\<close> and
  the stream flag \<^verbatim>\<open>showpos\<close>.
\<close>

definition plus_space_set :: "Manip \<Rightarrow> bool" where
  "plus_space_set manip =
     (m_extensions manip AND kPlusSpace \<noteq> Extensions_kNone
      \<and> ios_showpos \<in> os_flags (m_ostream manip))"

text \<open>Testing a flag word against a one-bit constant.\<close>

lemma flag_bit: "((x :: 32 word) AND push_bit n 1 \<noteq> 0) = bit x n"
  using and_exp_eq_0_iff_not_bit [of x n] by simp

lemmas flag_bits =
  flag_bit [of _ 1, folded kLocale_def] flag_bit [of _ 2, folded kPrecision_def]
  flag_bit [of _ 3, folded kWidth_def] flag_bit [of _ 4, folded kFill_def]
  flag_bit [of _ 5, folded kArg_def]

lemmas extension_bits =
  flag_bit [of _ 1, folded kIgnore_def] flag_bit [of _ 2, folded kPlusSpace_def]
  flag_bit [of _ 3, folded kStringNpos_def]

lemma bit_flag: "bit (push_bit k 1 :: 32 word) n = (n = k \<and> k < 32)"
  by (auto simp: bit_simps)

lemmas bit_flags =
  bit_flag [of 1, folded kLocale_def, simplified] bit_flag [of 2, folded kPrecision_def, simplified]
  bit_flag [of 3, folded kWidth_def, simplified] bit_flag [of 4, folded kFill_def, simplified]
  bit_flag [of 5, folded kArg_def, simplified]

lemmas bit_extensions =
  bit_flag [of 1, folded kIgnore_def, simplified] bit_flag [of 2, folded kPlusSpace_def, simplified]
  bit_flag [of 3, folded kStringNpos_def, simplified]

lemma flag_case_space:
  "flag_case CHR '' '' manip = Some m \<Longrightarrow> plus_space_set m"
  by (auto simp: flag_case_def plus_space_set_def on_stream_def add_extension_def setf_def
      Extensions_kNone_def extension_bits bit_extensions bit_or_iff)

lemma flag_case_keeps:
  "flag_case c manip = Some m \<Longrightarrow> plus_space_set manip \<Longrightarrow> plus_space_set m"
  by (auto simp: flag_case_def plus_space_set_def on_stream_def add_extension_def setf_def
      setf_mask_def ios_adjustfield_def Extensions_kNone_def extension_bits bit_extensions bit_or_iff
      split: if_splits)

lemma specifier_case_keeps:
  "specifier_case c manip = Some m \<Longrightarrow> plus_space_set manip \<Longrightarrow> plus_space_set m"
  by (auto simp: specifier_case_def plus_space_set_def on_stream_def add_extension_def setf_def
      setf_mask_def ios_basefield_def Extensions_kNone_def extension_bits bit_extensions bit_or_iff
      split: if_splits)

lemma SetArg_keeps:
  "SetArg set_these idx manip i st = Inr (m, i', st') \<Longrightarrow> plus_space_set manip \<Longrightarrow> plus_space_set m"
  by (auto simp: SetArg_def Let_def plus_space_set_def split: if_splits option.splits sum.splits)

lemma after_SetArg_keeps:
  "after_SetArg (SetArg set_these idx manip i st) = Inr (got, m, i', st') \<Longrightarrow>
   plus_space_set manip \<Longrightarrow> plus_space_set m"
  by (auto simp: after_SetArg_def split: sum.splits dest: SetArg_keeps)

lemma after_break_keeps:
  "after_break manip i st = Inr (got, m, i', st') \<Longrightarrow> m = manip"
  by (auto simp: after_break_def split: if_splits)

lemma on_stream_keeps:
  "os_flags (f (m_ostream manip)) = os_flags (m_ostream manip) \<Longrightarrow>
   plus_space_set manip \<Longrightarrow> plus_space_set (on_stream f manip)"
  by (simp add: on_stream_def plus_space_set_def)

lemma width_case_keeps:
  "width_case manip i st = Inr (got, m, i', st') \<Longrightarrow> plus_space_set manip \<Longrightarrow> plus_space_set m"
  by (auto simp: width_case_def Let_def split: if_splits sum.splits intro!: on_stream_keeps)

lemma fill_case_keeps:
  "fill_case manip i st = Inr (got, m, i', st') \<Longrightarrow> plus_space_set manip \<Longrightarrow> plus_space_set m"
  by (auto simp: fill_case_def split: if_splits dest!: after_break_keeps intro!: on_stream_keeps)

lemma precision_case_keeps:
  "precision_case idx manip i st = Inr (got, m, i', st') \<Longrightarrow> plus_space_set manip \<Longrightarrow>
   plus_space_set m"
  by (auto simp: precision_case_def Let_def split: if_splits sum.splits
      dest!: after_break_keeps dest: after_SetArg_keeps intro!: on_stream_keeps)

lemma directive_step_keeps:
  "directive_step idx manip i st = Inr (got, m, i', st') \<Longrightarrow> plus_space_set manip \<Longrightarrow>
   plus_space_set m"
  by (auto simp: directive_step_def Let_def split: if_splits
      dest!: after_break_keeps
      dest: after_SetArg_keeps width_case_keeps fill_case_keeps precision_case_keeps
        flag_case_keeps specifier_case_keeps)

lemma directive_step_space:
  "directive_step idx manip i st = Inr (got, m, i', st') \<Longrightarrow>
   char_at (p_text st) i = CHR '' '' \<Longrightarrow> plus_space_set m"
  by (auto simp: directive_step_def Let_def flag_case_space split: if_splits
      dest!: after_break_keeps)
     (auto simp: flag_case_def)

lemma directive_loop_keeps:
  "directive_loop idx manip i st = Inr (m, i', st') \<Longrightarrow> plus_space_set manip \<Longrightarrow>
   plus_space_set m"
proof (induction idx manip i st rule: directive_loop.induct)
  case (1 idx manip i st)
  from "1.prems"(1) obtain got manip1 i1 st1 where
    step: "directive_step idx manip i st = Inr (got, manip1, i1, st1)"
    by (subst (asm) directive_loop.simps) (auto split: sum.splits)
  from directive_step_keeps [OF step "1.prems"(2)] have keep: "plus_space_set manip1" .
  show ?case
  proof (cases got)
    case True
    with "1.prems"(1) step keep show ?thesis
      by (subst (asm) directive_loop.simps) auto
  next
    case False
    with "1.prems"(1) step have "directive_loop idx manip1 i1 st1 = Inr (m, i', st')"
      by (subst (asm) directive_loop.simps) auto
    from "1.IH" [OF step refl refl refl False this keep] show ?thesis .
  qed
qed

lemma directive_loop_space:
  assumes "directive_loop idx manip i st = Inr (m, i', st')"
    and "char_at (p_text st) i = CHR '' ''"
  shows "plus_space_set m"
proof -
  from assms(1) obtain got manip1 i1 st1 where
    step: "directive_step idx manip i st = Inr (got, manip1, i1, st1)"
    by (subst (asm) directive_loop.simps) (auto split: sum.splits)
  from directive_step_space [OF step assms(2)] have set1: "plus_space_set manip1" .
  show ?thesis
  proof (cases got)
    case True
    with assms(1) step set1 show ?thesis
      by (subst (asm) directive_loop.simps) auto
  next
    case False
    with assms(1) step have "directive_loop idx manip1 i1 st1 = Inr (m, i', st')"
      by (subst (asm) directive_loop.simps) auto
    from directive_loop_keeps [OF this set1] show ?thesis .
  qed
qed






subsection \<open>Which characters of a conversion specification the switch reads\<close>

text \<open>
  A pass through the switch consumes the character it stands on and possibly more: an
  argument number with its dollar sign, the digits of a width or precision, the fill
  character after \<^verbatim>\<open>_\<close>, the character after a plain \<^verbatim>\<open>.\<close>. A space among the
  characters consumed this way directly follows \<^verbatim>\<open>_\<close> or \<^verbatim>\<open>.\<close>; every other space of the
  specification is read by the switch.
\<close>

lemma isdigit_not_space: "isdigit c \<Longrightarrow> c \<noteq> CHR '' ''"
  by (auto simp: isdigit_def)

lemma EndNumber_digits: "start < j \<Longrightarrow> j < EndNumber s start \<Longrightarrow> isdigit (char_at s j)"
proof (induction s start rule: EndNumber.induct)
  case (1 s start)
  show ?case
  proof (cases "length s \<le> Suc start \<or> \<not> isdigit (char_at s (Suc start))")
    case True
    with "1.prems" show ?thesis
      by (subst (asm) EndNumber.simps) (auto split: if_splits)
  next
    case False
    with "1.prems"(2) have le: "j < EndNumber s (Suc start)"
      by (subst (asm) EndNumber.simps) (auto split: if_splits)
    show ?thesis
    proof (cases "j = Suc start")
      case True
      with False show ?thesis by simp
    next
      case False
      with "1.prems"(1) have "Suc start < j" by simp
      with "1.IH" \<open>\<not> (length s \<le> Suc start \<or> \<not> isdigit (char_at s (Suc start)))\<close> le
      show ?thesis by simp
    qed
  qed
qed

lemma EndArgumentNumber_no_space:
  assumes "EndArgumentNumber s start = Some e" and "start \<le> j" and "j < e"
  shows "char_at s j \<noteq> CHR '' ''"
proof -
  from assms(1) have pos: "IsPositiveNumber (char_at s start)"
    and e: "e = Suc (EndNumber s start)"
    and dollar: "char_at s (EndNumber s start) = CHR ''$''"
    by (auto simp: EndArgumentNumber_def Let_def split: if_splits)
  consider "j = start" | "start < j" "j < EndNumber s start" | "j = EndNumber s start"
    using assms(2,3) e by linarith
  then show ?thesis
  proof cases
    case 1
    with pos show ?thesis
      by (auto simp: IsPositiveNumber_def dest: isdigit_not_space)
  next
    case 2
    from EndNumber_digits [OF 2] show ?thesis
      by (rule isdigit_not_space)
  next
    case 3
    with dollar show ?thesis by simp
  qed
qed

lemma HandleArgumentNumber_frame:
  "HandleArgumentNumber argnum st = Some st' \<Longrightarrow>
   p_text st' = p_text st \<and> p_format st' = p_format st \<and> p_borders st' = p_borders st
   \<and> define_queue st' = define_queue st"
  by (auto simp: HandleArgumentNumber_def split: if_splits)

lemma SetArg_frame:
  "SetArg set_these idx manip i st = Inr (m, i1, st1) \<Longrightarrow>
   p_format st1 = p_format st \<and> p_borders st1 = p_borders st
   \<and> os_str (m_ostream m) = os_str (m_ostream manip)"
  by (auto simp: SetArg_def Let_def split: if_splits option.splits sum.splits
      dest!: HandleArgumentNumber_frame)

lemma SetArg_no_space:
  assumes "SetArg set_these idx manip i st = Inr (m, i1, st1)" and "i < j" and "j < i1"
  shows "char_at (p_text st) j \<noteq> CHR '' ''"
proof (cases "EndArgumentNumber (p_text st) (Suc i)")
  case None
  with assms show ?thesis
    by (auto simp: SetArg_def Let_def split: if_splits)
next
  case (Some e)
  with assms(1) have "i1 = e"
    by (auto simp: SetArg_def Let_def split: if_splits sum.splits option.splits)
  with assms(2,3) EndArgumentNumber_no_space [OF Some, of j] show ?thesis
    by simp
qed

lemma after_SetArg_frame:
  "after_SetArg (SetArg set_these idx manip i st) = Inr (got, m, i1, st1) \<Longrightarrow>
   p_format st1 = p_format st \<and> p_borders st1 = p_borders st
   \<and> os_str (m_ostream m) = os_str (m_ostream manip)"
  by (auto simp: after_SetArg_def split: sum.splits dest: SetArg_frame)

lemma after_SetArg_no_space:
  "after_SetArg (SetArg set_these idx manip i st) = Inr (got, m, i1, st1) \<Longrightarrow>
   i < j \<Longrightarrow> j < i1 \<Longrightarrow> char_at (p_text st) j \<noteq> CHR '' ''"
  by (auto simp: after_SetArg_def split: sum.splits dest: SetArg_no_space)

lemma after_break_result:
  "after_break manip i st = Inr (got, m, i1, st1) \<Longrightarrow> m = manip \<and> i1 = Suc i \<and> st1 = st"
  by (auto simp: after_break_def split: if_splits)

lemma width_case_frame:
  "width_case manip i st = Inr (got, m, i1, st1) \<Longrightarrow>
   st1 = st \<and> os_str (m_ostream m) = os_str (m_ostream manip)
   \<and> m_extensions m = m_extensions manip \<and> i1 = EndNumber (p_text st) i"
  by (auto simp: width_case_def Let_def on_stream_def split: if_splits sum.splits)

lemma fill_case_frame:
  "fill_case manip i st = Inr (got, m, i1, st1) \<Longrightarrow>
   st1 = st \<and> os_str (m_ostream m) = os_str (m_ostream manip) \<and> i1 = Suc (Suc i)"
  by (auto simp: fill_case_def on_stream_def split: if_splits dest!: after_break_result)

lemma precision_case_frame:
  "precision_case idx manip i st = Inr (got, m, i1, st1) \<Longrightarrow>
   p_format st1 = p_format st \<and> p_borders st1 = p_borders st
   \<and> os_str (m_ostream m) = os_str (m_ostream manip)"
  by (auto simp: precision_case_def Let_def on_stream_def split: if_splits sum.splits
      dest!: after_break_result dest: after_SetArg_frame)

lemma precision_case_space:
  assumes "precision_case idx manip i st = Inr (got, m, i1, st1)"
    and "i < j" and "j < i1" and "char_at (p_text st) j = CHR '' ''"
  shows "j = Suc i"
proof (cases "IsPositiveNumber (char_at (p_text st) (Suc i))")
  case True
  with assms(1) have i1: "i1 = EndNumber (p_text st) (Suc i)"
    by (auto simp: precision_case_def Let_def split: if_splits sum.splits)
  show ?thesis
  proof (rule ccontr)
    assume "j \<noteq> Suc i"
    with assms(2,3) i1 have "isdigit (char_at (p_text st) j)"
      by (intro EndNumber_digits) auto
    with assms(4) show False
      by (auto dest: isdigit_not_space)
  qed
next
  case False
  show ?thesis
  proof (cases "char_at (p_text st) (Suc i) = CHR ''*''")
    case True
    with assms(1) False have
      "after_SetArg (SetArg kPrecision idx manip (Suc i) st) = Inr (got, m, i1, st1)"
      by (auto simp: precision_case_def split: if_splits)
    from after_SetArg_no_space [OF this, of j] assms(2,3,4) True show ?thesis
      by (cases "j = Suc i") auto
  next
    case nostar: False
    with assms(1) False have "i1 = Suc (Suc i)"
      by (auto simp: precision_case_def split: if_splits dest!: after_break_result)
    with assms(2,3) show ?thesis by simp
  qed
qed

lemma directive_step_frame:
  "directive_step idx manip i st = Inr (got, m, i1, st1) \<Longrightarrow>
   p_format st1 = p_format st \<and> p_borders st1 = p_borders st
   \<and> os_str (m_ostream m) = os_str (m_ostream manip)"
  by (auto simp: directive_step_def Let_def flag_case_def specifier_case_def on_stream_def
      add_extension_def setf_def setf_mask_def
      split: if_splits
      dest!: after_break_result
      dest: after_SetArg_frame width_case_frame fill_case_frame precision_case_frame)

lemma directive_step_skipped_space:
  assumes "directive_step idx manip i st = Inr (got, m, i1, st1)"
    and "i < j" and "j < i1" and "char_at (p_text st) j = CHR '' ''"
  shows "char_at (p_text st) (j - 1) \<in> {CHR ''_'', CHR ''.''}"
proof -
  let ?c = "char_at (p_text st) i"
  consider (flag) "flag_case ?c manip \<noteq> None"
    | (fill) "flag_case ?c manip = None" "?c = CHR ''_''"
    | (setarg) "flag_case ?c manip = None" "?c \<in> {CHR ''/'', CHR ''*'', CHR ''~''}"
    | (prec) "flag_case ?c manip = None" "?c = CHR ''.''"
    | (spec) "flag_case ?c manip = None" "?c \<notin> {CHR ''_'', CHR ''/'', CHR ''*'', CHR ''.'', CHR ''~''}"
        "specifier_case ?c manip \<noteq> None"
    | (width) "flag_case ?c manip = None" "?c \<notin> {CHR ''_'', CHR ''/'', CHR ''*'', CHR ''.'', CHR ''~''}"
        "specifier_case ?c manip = None"
    by blast
  then show ?thesis
  proof cases
    case flag
    with assms(1) have "i1 = Suc i"
      by (auto simp: directive_step_def Let_def dest!: after_break_result)
    with assms(2,3) show ?thesis by simp
  next
    case fill
    with assms(1) have "i1 = Suc (Suc i)"
      by (auto simp: directive_step_def Let_def dest!: fill_case_frame)
    with assms(2,3) have "j - 1 = i" by simp
    with fill show ?thesis by simp
  next
    case setarg
    with assms(1) obtain k where
      "after_SetArg (SetArg k idx manip i st) = Inr (got, m, i1, st1)"
      by (auto simp: directive_step_def Let_def split: if_splits)
    from after_SetArg_no_space [OF this assms(2,3)] assms(4) show ?thesis
      by simp
  next
    case prec
    with assms(1) have "precision_case idx manip i st = Inr (got, m, i1, st1)"
      by (auto simp: directive_step_def Let_def)
    from precision_case_space [OF this assms(2,3,4)] prec show ?thesis
      by simp
  next
    case spec
    with assms(1) have "i1 = Suc i"
      by (auto simp: directive_step_def Let_def)
    with assms(2,3) show ?thesis by simp
  next
    case width
    with assms(1) have "i1 = EndNumber (p_text st) i"
      by (auto simp: directive_step_def Let_def split: if_splits dest!: width_case_frame)
    with assms(2,3) have "isdigit (char_at (p_text st) j)"
      by (intro EndNumber_digits) auto
    with assms(4) show ?thesis
      by (auto dest: isdigit_not_space)
  qed
qed

lemma directive_loop_frame:
  "directive_loop idx manip i st = Inr (m, i', st') \<Longrightarrow>
   p_format st' = p_format st \<and> p_borders st' = p_borders st
   \<and> os_str (m_ostream m) = os_str (m_ostream manip)"
proof (induction idx manip i st rule: directive_loop.induct)
  case (1 idx manip i st)
  from "1.prems" obtain got manip1 i1 st1 where
    step: "directive_step idx manip i st = Inr (got, manip1, i1, st1)"
    by (subst (asm) directive_loop.simps) (auto split: sum.splits)
  note keep = directive_step_frame [OF step]
  show ?case
  proof (cases got)
    case True
    with "1.prems" step keep show ?thesis
      by (subst (asm) directive_loop.simps) auto
  next
    case False
    with "1.prems" step have "directive_loop idx manip1 i1 st1 = Inr (m, i', st')"
      by (subst (asm) directive_loop.simps) auto
    from "1.IH" [OF step refl refl refl False this] keep show ?thesis
      by simp
  qed
qed

lemma directive_loop_reads_space:
  "directive_loop idx manip i st = Inr (m, i', st') \<Longrightarrow> i \<le> j \<Longrightarrow> j < i' \<Longrightarrow>
   char_at (p_text st) j = CHR '' '' \<Longrightarrow>
   j = i \<or> char_at (p_text st) (j - 1) \<notin> {CHR ''_'', CHR ''.''} \<Longrightarrow>
   plus_space_set m"
proof (induction idx manip i st rule: directive_loop.induct)
  case (1 idx manip i st)
  from "1.prems"(1) obtain got manip1 i1 st1 where
    step: "directive_step idx manip i st = Inr (got, manip1, i1, st1)"
    by (subst (asm) directive_loop.simps) (auto split: sum.splits)
  note prog = directive_step_progress [OF step]
  show ?case
  proof (cases "j = i")
    case True
    with "1.prems"(4) have "char_at (p_text st) i = CHR '' ''" by simp
    with "1.prems"(1) show ?thesis
      by (rule directive_loop_space)
  next
    case False
    with "1.prems" have lt: "i < j"
      and prev: "char_at (p_text st) (j - 1) \<notin> {CHR ''_'', CHR ''.''}"
      by auto
    from directive_step_skipped_space [OF step lt _ "1.prems"(4)] prev
    have ge: "i1 \<le> j"
      by (meson not_le)
    show ?thesis
    proof (cases got)
      case True
      with "1.prems"(1) step have "i' = i1"
        by (subst (asm) directive_loop.simps) auto
      with ge "1.prems"(3) show ?thesis by simp
    next
      case notgot: False
      with "1.prems"(1) step have rest: "directive_loop idx manip1 i1 st1 = Inr (m, i', st')"
        by (subst (asm) directive_loop.simps) auto
      from "1.IH" [OF step refl refl refl notgot rest ge "1.prems"(3)] "1.prems"(4) prev prog
      show ?thesis by simp
    qed
  qed
qed

lemma directive_head_frame:
  "directive_head idx i st = Inr (u, i2, st2) \<Longrightarrow>
   p_format st2 = p_format st \<and> p_borders st2 = p_borders st \<and> p_text st2 = p_text st"
  by (auto simp: directive_head_def split: option.splits if_splits sum.splits
      dest!: HandleArgumentNumber_frame)

lemma directive_head_no_space:
  assumes "directive_head idx i st = Inr (u, i2, st2)" and "i \<le> j" and "j < i2"
  shows "char_at (p_text st) j \<noteq> CHR '' ''"
proof (cases "EndArgumentNumber (p_text st) i")
  case None
  with assms show ?thesis
    by (auto simp: directive_head_def)
next
  case (Some e)
  with assms(1) have "i2 = e"
    by (auto simp: directive_head_def split: if_splits sum.splits option.splits)
  with assms(2,3) EndArgumentNumber_no_space [OF Some, of j] show ?thesis
    by simp
qed

lemma directive_result:
  assumes "directive start i st = Inr (i', st')"
  shows "\<exists>m. p_format st' = p_format st @ [m] \<and> p_borders st' = p_borders st @ [start, i']
     \<and> p_text st' = p_text st \<and> os_str (m_ostream m) = []
     \<and> (\<forall>j. i \<le> j \<and> j < i' \<and> char_at (p_text st) j = CHR '' ''
            \<and> char_at (p_text st) (j - 1) \<notin> {CHR ''_'', CHR ''.''} \<longrightarrow> plus_space_set m)"
proof -
  let ?idx = "length (p_format st)"
  let ?st1 = "st\<lparr>p_borders := p_borders st @ [start], p_format := p_format st @ [new_Manip]\<rparr>"
  from assms obtain u i2 st2 m st3 where
    head: "directive_head ?idx i ?st1 = Inr (u, i2, st2)"
    and loop: "directive_loop ?idx new_Manip i2 st2 = Inr (m, i', st3)"
    and fmt: "p_format st' = (p_format st3)[?idx := m]"
    and brd: "p_borders st' = p_borders st3 @ [i']"
    and tx: "p_text st' = p_text st3"
    by (auto simp: directive_def Let_def split: sum.splits if_splits)
  note hf = directive_head_frame [OF head]
  note lf = directive_loop_frame [OF loop]
  note lp = directive_loop_progress [OF loop]
  from fmt hf lf have "p_format st' = p_format st @ [m]" by simp
  moreover from brd hf lf have "p_borders st' = p_borders st @ [start, i']" by simp
  moreover from tx hf lp have "p_text st' = p_text st" by simp
  moreover from lf have "os_str (m_ostream m) = []"
    by (simp add: new_Manip_def new_ostringstream_def)
  moreover have "plus_space_set m"
    if "i \<le> j" "j < i'" "char_at (p_text st) j = CHR '' ''"
      "char_at (p_text st) (j - 1) \<notin> {CHR ''_'', CHR ''.''}" for j
  proof -
    from directive_head_no_space [OF head that(1)] that(3) have "i2 \<le> j"
      by (auto simp: not_less [symmetric])
    from directive_loop_reads_space [OF loop this that(2)] that(3,4) hf show ?thesis
      by simp
  qed
  ultimately show ?thesis by blast
qed

text \<open>
  An invariant of the loop of \<^verbatim>\<open>ParseFormat\<close> holds for its result when it holds at
  the start and both ways through the loop body keep it: collapsing \<^verbatim>\<open>%%\<close> and parsing
  a conversion specification.
\<close>

lemma ParseFormat_loop_invariant:
  assumes "ParseFormat_loop i st = Inr st'" and "P i st"
    and collapse: "\<And>i st start. P i st \<Longrightarrow> find_char CHR ''%'' (p_text st) i = Some start \<Longrightarrow>
      Suc start < length (p_text st) \<Longrightarrow> char_at (p_text st) (Suc start) = CHR ''%'' \<Longrightarrow>
      P (Suc start) (st\<lparr>p_text := erase1 (p_text st) (Suc start)\<rparr>)"
    and spec: "\<And>i st start i1 st1. P i st \<Longrightarrow> find_char CHR ''%'' (p_text st) i = Some start \<Longrightarrow>
      directive start (Suc start) st = Inr (i1, st1) \<Longrightarrow> P i1 st1"
  shows "\<exists>i'. P i' st'"
  using assms(1,2)
proof (induction i st rule: ParseFormat_loop.induct)
  case (1 i st)
  show ?case
  proof (cases "find_char CHR ''%'' (p_text st) i")
    case None
    with "1.prems" show ?thesis
      by (subst (asm) ParseFormat_loop.simps) auto
  next
    case (Some start)
    from find_char_bounds [OF Some] have bound: "start < length (p_text st)" by simp
    show ?thesis
    proof (cases "Suc start = length (p_text st)")
      case True
      with "1.prems" Some show ?thesis
        by (subst (asm) ParseFormat_loop.simps) simp
    next
      case notlast: False
      with bound have lt: "Suc start < length (p_text st)" by simp
      show ?thesis
      proof (cases "char_at (p_text st) (Suc start) = CHR ''%''")
        case True
        let ?st1 = "st\<lparr>p_text := erase1 (p_text st) (Suc start)\<rparr>"
        from collapse [OF "1.prems"(2) Some lt True] have P1: "P (Suc start) ?st1" .
        show ?thesis
        proof (cases "Suc start \<noteq> length (p_text ?st1)")
          case more: True
          with "1.prems"(1) Some notlast True
          have "ParseFormat_loop (Suc start) ?st1 = Inr st'"
            by (subst (asm) ParseFormat_loop.simps) (simp add: Let_def)
          from "1.IH"(1) [OF Some notlast True refl more this P1] show ?thesis .
        next
          case False
          with "1.prems"(1) Some notlast True have "st' = ?st1"
            by (subst (asm) ParseFormat_loop.simps) (auto simp: Let_def)
          with P1 show ?thesis by blast
        qed
      next
        case False
        with "1.prems"(1) Some notlast obtain i1 st1 where
          d: "directive start (Suc start) st = Inr (i1, st1)"
          and rest: "ParseFormat_loop i1 st1 = Inr st'"
          by (subst (asm) ParseFormat_loop.simps) (auto split: sum.splits)
        from spec [OF "1.prems"(2) Some d] have "P i1 st1" .
        from "1.IH"(2) [OF Some notlast False d refl rest this] show ?thesis .
      qed
    qed
  qed
qed






section \<open>The streams of ignored conversion specifications\<close>

text \<open>The parser writes nothing into the stream of a \<^verbatim>\<open>Manip\<close>.\<close>

definition unwritten :: "Manip list \<Rightarrow> bool" where
  "unwritten formats = list_all (\<lambda>m. os_str (m_ostream m) = []) formats"

lemma ParseFormat_unwritten:
  assumes "ParseFormat vmax text = Inr st"
  shows "unwritten (p_format st)"
proof -
  let ?st0 = "\<lparr>vector_max = vmax, p_text = text, p_format = [], p_borders = [], p_args = [],
              specified = [], define_queue = []\<rparr>"
  from assms obtain st1 where loop: "ParseFormat_loop 0 ?st0 = Inr st1"
    and eq: "p_format st = p_format st1"
    by (auto simp: ParseFormat_def Let_def split: sum.splits if_splits)
  have "\<exists>i'::nat. unwritten (p_format st1)"
  proof (rule ParseFormat_loop_invariant [OF loop, where P = "\<lambda>i st. unwritten (p_format st)"])
    show "unwritten (p_format ?st0)"
      by (simp add: unwritten_def)
  next
    fix i st start
    assume "unwritten (p_format st)"
    then show "unwritten (p_format (st\<lparr>p_text := erase1 (p_text st) (Suc start)\<rparr>))"
      by simp
  next
    fix i st start i1 st1
    assume "unwritten (p_format st)" "directive start (Suc start) st = Inr (i1, st1)"
    with directive_result [of start "Suc start" st i1 st1] show "unwritten (p_format st1)"
      by (auto simp: unwritten_def)
  qed
  with eq show ?thesis by simp
qed

text \<open>
  The dispatcher writes into the stream of a \<^verbatim>\<open>Manip\<close> only in the part for the main
  argument, and not when the \<^verbatim>\<open>Manip\<close> has the extension \<^verbatim>\<open>kIgnore\<close>: the stream of an
  ignored \<^verbatim>\<open>Manip\<close> stays empty.
\<close>

definition ignored_empty :: "Manip \<Rightarrow> bool" where
  "ignored_empty manip =
     (if m_extensions manip AND kIgnore \<noteq> Extensions_kNone
      then os_str (m_ostream manip) = [] else True)"

lemma SetLocale_str: "SetLocale os a = Inr os' \<Longrightarrow> os_str os' = os_str os"
  by (auto simp: SetLocale_def split: cvalue.splits)

lemma SetPrecision_str: "SetPrecision os a = Inr os' \<Longrightarrow> os_str os' = os_str os"
  by (auto simp: SetPrecision_def split: option.splits)

lemma SetWidth_str: "SetWidth os a = Inr os' \<Longrightarrow> os_str os' = os_str os"
  by (cases "val a")
     (auto simp: SetWidth_def width_left_def width_plain_def setf_mask_def split: if_splits)

lemma SetFill_str: "SetFill os a = Inr os' \<Longrightarrow> os_str os' = os_str os"
  by (auto simp: SetFill_def split: option.splits)

lemma locale_part_ignored:
  "locale_part a s manip = Inr m \<Longrightarrow> ignored_empty manip \<Longrightarrow> ignored_empty m"
  by (auto simp: locale_part_def ignored_empty_def split: if_splits sum.splits
      dest: SetLocale_str)

lemma precision_part_ignored:
  "precision_part a s manip = Inr m \<Longrightarrow> ignored_empty manip \<Longrightarrow> ignored_empty m"
  by (auto simp: precision_part_def ignored_empty_def split: if_splits sum.splits
      dest: SetPrecision_str)

lemma width_part_ignored:
  "width_part a s manip = Inr m \<Longrightarrow> ignored_empty manip \<Longrightarrow> ignored_empty m"
  by (auto simp: width_part_def ignored_empty_def split: if_splits sum.splits
      dest: SetWidth_str)

lemma fill_part_ignored:
  "fill_part a s manip = Inr m \<Longrightarrow> ignored_empty manip \<Longrightarrow> ignored_empty m"
  by (auto simp: fill_part_def ignored_empty_def split: if_splits sum.splits
      dest: SetFill_str)

lemma arg_part_ignored:
  "arg_part a s manip = Inr m \<Longrightarrow> ignored_empty manip \<Longrightarrow> ignored_empty m"
  by (auto simp: arg_part_def ignored_empty_def split: if_splits sum.splits)

lemma and_then_InrE:
  assumes "and_then r k = Inr y"
  obtains x where "r = Inr x" and "k x = Inr y"
  using assms by (cases r) (auto simp: and_then_def)

lemma apply_reference_parts:
  assumes "apply_reference a it manip = Inr m"
  obtains m1 m2 m3 m4 where
    "locale_part a (r_set_these it) manip = Inr m1"
    "precision_part a (r_set_these it) m1 = Inr m2"
    "width_part a (r_set_these it) m2 = Inr m3"
    "fill_part a (r_set_these it) m3 = Inr m4"
    "arg_part a (r_set_these it) m4 = Inr m"
proof -
  from assms [unfolded apply_reference_def] obtain m1 where
    p1: "locale_part a (r_set_these it) manip = Inr m1"
    and r1: "and_then (precision_part a (r_set_these it) m1) (\<lambda>manip2.
     and_then (width_part a (r_set_these it) manip2) (\<lambda>manip3.
     and_then (fill_part a (r_set_these it) manip3) (\<lambda>manip4.
     arg_part a (r_set_these it) manip4))) = Inr m"
    by (rule and_then_InrE)
  from r1 obtain m2 where
    p2: "precision_part a (r_set_these it) m1 = Inr m2"
    and r2: "and_then (width_part a (r_set_these it) m2) (\<lambda>manip3.
     and_then (fill_part a (r_set_these it) manip3) (\<lambda>manip4.
     arg_part a (r_set_these it) manip4)) = Inr m"
    by (rule and_then_InrE)
  from r2 obtain m3 where
    p3: "width_part a (r_set_these it) m2 = Inr m3"
    and r3: "and_then (fill_part a (r_set_these it) m3) (\<lambda>manip4.
     arg_part a (r_set_these it) manip4) = Inr m"
    by (rule and_then_InrE)
  from r3 obtain m4 where
    p4: "fill_part a (r_set_these it) m3 = Inr m4"
    and p5: "arg_part a (r_set_these it) m4 = Inr m"
    by (rule and_then_InrE)
  from p1 p2 p3 p4 p5 show ?thesis by (rule that)
qed

lemma apply_reference_ignored:
  assumes "apply_reference a it manip = Inr m" and "ignored_empty manip"
  shows "ignored_empty m"
proof -
  from assms(1) obtain m1 m2 m3 m4 where
    p1: "locale_part a (r_set_these it) manip = Inr m1" and
    p2: "precision_part a (r_set_these it) m1 = Inr m2" and
    p3: "width_part a (r_set_these it) m2 = Inr m3" and
    p4: "fill_part a (r_set_these it) m3 = Inr m4" and
    p5: "arg_part a (r_set_these it) m4 = Inr m"
    by (rule apply_reference_parts)
  from locale_part_ignored [OF p1 assms(2)] have "ignored_empty m1" .
  from precision_part_ignored [OF p2 this] have "ignored_empty m2" .
  from width_part_ignored [OF p3 this] have "ignored_empty m3" .
  from fill_part_ignored [OF p4 this] have "ignored_empty m4" .
  from arg_part_ignored [OF p5 this] show ?thesis .
qed

lemma list_all_update:
  "list_all P xs \<Longrightarrow> (k < length xs \<Longrightarrow> P x) \<Longrightarrow> list_all P (xs[k := x])"
proof (cases "k < length xs")
  case True
  assume "list_all P xs" "k < length xs \<Longrightarrow> P x"
  with True set_update_subset_insert [of xs k x] show ?thesis
    by (auto simp: list_all_iff)
next
  case False
  assume "list_all P xs"
  with False show ?thesis by (simp add: list_update_beyond)
qed

lemma apply_defines_ignored:
  "apply_defines a defines formats = Inr formats' \<Longrightarrow> list_all ignored_empty formats \<Longrightarrow>
   list_all ignored_empty formats'"
proof (induction "defines" arbitrary: formats)
  case Nil
  then show ?case by simp
next
  case (Cons it defs)
  from Cons.prems(1) obtain manip where
    one: "apply_reference a it (formats ! r_manip it) = Inr manip"
    and rest: "apply_defines a defs (formats[r_manip it := manip]) = Inr formats'"
    by (auto split: sum.splits)
  have "list_all ignored_empty (formats[r_manip it := manip])"
  proof (rule list_all_update [OF Cons.prems(2)])
    assume "r_manip it < length formats"
    with Cons.prems(2) have "ignored_empty (formats ! r_manip it)"
      by (simp add: list_all_length)
    from apply_reference_ignored [OF one this] show "ignored_empty manip" .
  qed
  from Cons.IH [OF rest this] show ?case .
qed

definition holds_ignored_empty :: "Format \<Rightarrow> bool" where
  "holds_ignored_empty f =
     (case f_parse f of None \<Rightarrow> True | Some parse \<Rightarrow> list_all ignored_empty (pa_format parse))"

lemma Throw_holds: "Throw e f = Inr f' \<Longrightarrow> holds_ignored_empty f'"
  by (auto simp: Throw_def holds_ignored_empty_def set_success_def split: if_splits)

lemma InitialOutput_holds: "InitialOutput f = Inr f' \<Longrightarrow> holds_ignored_empty f'"
  by (cases "InitialOutput f")
     (auto simp: InitialOutput_def Let_def holds_ignored_empty_def map_sum_def
       split: sum.splits)

lemma Init_holds: "Init vmax snk f0 = Inr f \<Longrightarrow> holds_ignored_empty f"
proof -
  assume a: "Init vmax snk f0 = Inr f"
  show ?thesis
  proof (cases "ParseFormat vmax (f_text (if f_abort f0 then f0\<lparr>f_success := None\<rparr> else f0))")
    case (Inl et)
    with a show ?thesis
      by (cases et; cases "fst et") (auto simp: Init_def Let_def dest: Throw_holds)
  next
    case (Inr st)
    from ParseFormat_unwritten [OF Inr] have "list_all ignored_empty (p_format st)"
      by (auto simp: unwritten_def ignored_empty_def list_all_iff)
    with a Inr show ?thesis
      by (auto simp: Init_def Let_def holds_ignored_empty_def set_success_def
          split: if_splits dest: InitialOutput_holds)
  qed
qed

lemma feed_holds:
  assumes "feed f a = Inr f'" and "holds_ignored_empty f"
  shows "holds_ignored_empty f'"
proof (cases "f_parse f")
  case None
  with assms show ?thesis
    by (auto simp: feed_def split: if_splits dest: Throw_holds)
next
  case (Some parse)
  show ?thesis
  proof (cases "pa_simple parse")
    case True
    with assms Some show ?thesis
      by (auto simp: feed_def split: sum.splits dest: Throw_holds InitialOutput_holds)
  next
    case False
    show ?thesis
    proof (cases "apply_defines a (pa_args parse ! pa_current_arg parse) (pa_format parse)")
      case (Inl e)
      with assms Some False show ?thesis
        by (auto simp: feed_def dest: Throw_holds)
    next
      case (Inr formats)
      from assms(2) Some have "list_all ignored_empty (pa_format parse)"
        by (simp add: holds_ignored_empty_def)
      from apply_defines_ignored [OF Inr this] have "list_all ignored_empty formats" .
      with assms(1) Some False Inr show ?thesis
        by (auto simp: feed_def Let_def FinishInsertingArgs_def holds_ignored_empty_def
            split: if_splits dest: InitialOutput_holds)
    qed
  qed
qed

lemma feeds_holds:
  "feeds r as = Inr f \<Longrightarrow> (\<And>f0. r = Inr f0 \<Longrightarrow> holds_ignored_empty f0) \<Longrightarrow>
   holds_ignored_empty f"
proof (induction as arbitrary: r)
  case Nil
  then show ?case by simp
next
  case (Cons a as)
  show ?case
  proof (rule Cons.IH [OF Cons.prems(1) [simplified]])
    fix f1
    assume "and_then r (\<lambda>f. feed f a) = Inr f1"
    then obtain f0 where "r = Inr f0" "feed f0 a = Inr f1"
      by (rule and_then_InrE)
    with Cons.prems(2) show "holds_ignored_empty f1"
      by (blast intro: feed_holds)
  qed
qed

lemma manip_text_ignored_empty:
  "ignored_empty manip \<Longrightarrow>
   manip_text manip =
     (if m_extensions manip AND kPlusSpace \<noteq> Extensions_kNone
      then string_with_plus (os_str (m_ostream manip)) else os_str (m_ostream manip))"
  by (auto simp: manip_text_def ignored_empty_def string_with_plus_def find_char_def
      split: if_splits)

lemma string_with_plus_first:
  "CHR ''+'' \<notin> set a \<Longrightarrow> string_with_plus (a @ CHR ''+'' # b) = a @ CHR '' '' # b"
proof -
  assume "CHR ''+'' \<notin> set a"
  then have "takeWhile (\<lambda>x. x \<noteq> CHR ''+'') (a @ CHR ''+'' # b) = a"
    by (subst takeWhile_append2) auto
  then show ?thesis
    by (simp add: string_with_plus_def find_char_def list_update_append)
qed

lemma string_with_plus_none: "CHR ''+'' \<notin> set s \<Longrightarrow> string_with_plus s = s"
  by (simp add: string_with_plus_def find_char_def)
text \<open>The stream that the parser configures for \<^verbatim>\<open>% s\<close>.\<close>

definition space_s_stream :: ostringstream where
  "space_s_stream = new_ostringstream\<lparr>os_flags := {ios_showpos, ios_skipws, ios_dec}\<rparr>"

lemma parse_space_s:
  "ParseFormat vmax ''% s'' =
     Inr \<lparr>vector_max = vmax, p_text = ''% s'',
          p_format = [\<lparr>m_ostream = space_s_stream, m_extensions = 4, m_need = 0\<rparr>],
          p_borders = [0, 3], p_args = [[\<lparr>r_set_these = 32, r_manip = 0\<rparr>]],
          specified = [], define_queue = [\<lparr>r_set_these = 32, r_manip = 0\<rparr>]\<rparr>"
  unfolding space_s_stream_def by code_simp


section \<open>Properties\<close>

text \<open>
  C7. \<^verbatim>\<open>Special::Flush()\<close> returns a value whose flag bits are the Newline constant
  \<^verbatim>\<open>kNewline\<close>, not the Flush constant, so \<^verbatim>\<open>Special::Flush()\<close> and
  \<^verbatim>\<open>Special::Newline()\<close> return equal values.
\<close>

theorem Special_Flush_is_Newline:
  "get Special_Flush = Special_kNewline
   \<and> get Special_Flush \<noteq> Special_kFlush
   \<and> Special_Flush = Special_Newline"
  by (simp add: Special_Flush_def Special_Newline_def Special_New_def
      Special_kNewline_def Special_kFlush_def)

text \<open>
  C5. The claim is that some format text makes the parser fail with
  \<^verbatim>\<open>NumberWithoutDollar\<close>. The code never throws this error: no format text fails
  with it, whatever sizes \<^verbatim>\<open>resize\<close> grants.
\<close>

theorem NumberWithoutDollar_unreachable:
  "\<not> (\<exists>vmax text t. ParseFormat vmax text = Inl (Failed kNumberWithoutDollar, t))"
  by (auto simp: parser_errors_def dest: ParseFormat_error)

text \<open>
  C5, as amended. \<^verbatim>\<open>NumberWithoutDollar\<close> is not a failure mode of the parser: for
  every format text the outcome of \<^verbatim>\<open>ParseFormat\<close> differs from a failure with this
  code. A number without a dollar sign is not an error: in \<^verbatim>\<open>%12s\<close> the parser reads
  the digits as the literal width 12.
\<close>

theorem ParseFormat_never_NumberWithoutDollar:
  "ParseFormat vmax text \<noteq> Inl (Failed kNumberWithoutDollar, t)
   \<and> map_sum id (\<lambda>st. map (\<lambda>m. os_width (m_ostream m)) (p_format st))
         (ParseFormat vmax ''%12s'') = Inr [12]"
proof
  show "ParseFormat vmax text \<noteq> Inl (Failed kNumberWithoutDollar, t)"
    using ParseFormat_error [of vmax "text" kNumberWithoutDollar t]
    by (auto simp: parser_errors_def)
  show "map_sum id (\<lambda>st. map (\<lambda>m. os_width (m_ostream m)) (p_format st))
         (ParseFormat vmax ''%12s'') = Inr [12]"
    by code_simp
qed

text \<open>
  C6. The claim is that a number either fails with \<^verbatim>\<open>NumberOverflow\<close> or is parsed to
  its decimal value. In the format \<^verbatim>\<open>%30000000000000000000$s\<close> the argument number
  occupies the positions 1 to 20; \<^verbatim>\<open>ParseNumber\<close> on these positions wraps around
  past the previous value, reports no error and returns a value that is not the
  decimal value.
\<close>

theorem ParseNumber_wraps_undetected:
  "EndArgumentNumber ''%30000000000000000000$s'' 1 = Some 22
   \<and> ParseNumber ''%30000000000000000000$s'' 1 21 = Inr 11553255926290448384
   \<and> unat (11553255926290448384 :: 64 word) \<noteq> decimal_value ''30000000000000000000''"
  by (simp add: decimal_value_def digit_val_def, code_simp)

text \<open>
  C8. The claim is that a negative width argument of a signed type sets the width to
  the negated, positive value. For the least \<^verbatim>\<open>signed char\<close>, \<open>-128\<close>, the negation
  is narrowed back to \<^verbatim>\<open>signed char\<close> and the width becomes \<open>-128\<close>: left adjustment
  is selected, but the field is not padded.
\<close>

theorem SetWidth_least_signed_char:
  "SetWidth os \<lparr>val = VSChar (- 128), put = p\<rparr> = Inr (width_left (- 128) os)
   \<and> sint (os_width (width_left (- 128) os)) = - 128
   \<and> os_flags (width_left (- 128) os) \<inter> ios_adjustfield = {ios_left}"
  by (auto simp: SetWidth_def width_left_def setf_mask_def ios_adjustfield_def word_sless_alt)

text \<open>
  C9. Every \<^verbatim>\<open>Manip\<close> that reaches the assembler belongs to the \<^verbatim>\<open>format_\<close> list of an
  object that was constructed from a format string and fed arguments. For such a
  \<^verbatim>\<open>Manip\<close> one pass of the loop of \<^verbatim>\<open>FinishInsertingArgs\<close> appends the rendered text
  \<^verbatim>\<open>ostream_.str()\<close> with its first plus sign replaced by a space if \<^verbatim>\<open>kPlusSpace\<close> is
  set, and the rendered text itself otherwise (for an ignored \<^verbatim>\<open>Manip\<close> this text is
  empty). The replacement turns the first plus sign into one space and keeps what
  precedes and what follows it; a text without a plus sign stays as it is.
\<close>

theorem assembler_replaces_first_plus:
  "(feeds (Init vmax snk f0) as = Inr f \<and> f_parse f = Some parse
      \<and> apply_defines a (pa_args parse ! pa_current_arg parse) (pa_format parse) = Inr formats
      \<and> manip \<in> set formats \<longrightarrow>
      manip_text manip =
        (if m_extensions manip AND kPlusSpace \<noteq> Extensions_kNone
         then string_with_plus (os_str (m_ostream manip)) else os_str (m_ostream manip)))
   \<and> (CHR ''+'' \<notin> set u \<longrightarrow> string_with_plus (u @ CHR ''+'' # v) = u @ CHR '' '' # v)
   \<and> (CHR ''+'' \<notin> set s \<longrightarrow> string_with_plus s = s)
   \<and> assemble t current_pos (b # e # borders) (manip # rest) result =
       assemble t e borders rest (result @ append_part t current_pos b @ manip_text manip)"
proof (intro conjI impI)
  assume a: "feeds (Init vmax snk f0) as = Inr f \<and> f_parse f = Some parse
      \<and> apply_defines a (pa_args parse ! pa_current_arg parse) (pa_format parse) = Inr formats
      \<and> manip \<in> set formats"
  then have fd: "feeds (Init vmax snk f0) as = Inr f" and pa: "f_parse f = Some parse"
    and ap: "apply_defines a (pa_args parse ! pa_current_arg parse) (pa_format parse)
      = Inr formats"
    and m: "manip \<in> set formats"
    by simp_all
  from fd have "holds_ignored_empty f"
    by (rule feeds_holds) (rule Init_holds)
  with pa have "list_all ignored_empty (pa_format parse)"
    by (simp add: holds_ignored_empty_def)
  from apply_defines_ignored [OF ap this] m have "ignored_empty manip"
    by (simp add: list_all_iff)
  then show "manip_text manip =
        (if m_extensions manip AND kPlusSpace \<noteq> Extensions_kNone
         then string_with_plus (os_str (m_ostream manip)) else os_str (m_ostream manip))"
    by (rule manip_text_ignored_empty)
next
  assume "CHR ''+'' \<notin> set u"
  then show "string_with_plus (u @ CHR ''+'' # v) = u @ CHR '' '' # v"
    by (rule string_with_plus_first)
next
  assume "CHR ''+'' \<notin> set s"
  then show "string_with_plus s = s"
    by (rule string_with_plus_none)
next
  show "assemble t current_pos (b # e # borders) (manip # rest) result =
       assemble t e borders rest (result @ append_part t current_pos b @ manip_text manip)"
    by simp
qed

theorem assembler_replaces_first_plus_witness:
  "feeds (Init 0 NoSink \<lparr>f_abort = True, f_success = None, f_error = kNone, f_count = None,
            f_text = ''% s'', f_parse = None, f_flags = Special_None, f_device = no_device\<rparr>) []
     = Inr \<lparr>f_abort = True, f_success = None, f_error = kTooFewArguments, f_count = None,
            f_text = ''% s'',
            f_parse = Some \<lparr>pa_format = [\<lparr>m_ostream = space_s_stream, m_extensions = 4,
                                           m_need = 0\<rparr>],
                            pa_borders = [0, 3],
                            pa_args = [[\<lparr>r_set_these = 32, r_manip = 0\<rparr>]],
                            pa_current_arg = 0, pa_simple = False, pa_sink = NoSink\<rparr>,
            f_flags = Special_None, f_device = no_device\<rparr>
   \<and> apply_defines (string_arg ''a+b+c'') [\<lparr>r_set_these = 32, r_manip = 0\<rparr>]
        [\<lparr>m_ostream = space_s_stream, m_extensions = 4, m_need = 0\<rparr>]
     = Inr [\<lparr>m_ostream = space_s_stream\<lparr>os_str := ''a+b+c''\<rparr>, m_extensions = 4,
             m_need = 0\<rparr>]
   \<and> (4 :: 32 word) AND kPlusSpace \<noteq> Extensions_kNone
   \<and> manip_text \<lparr>m_ostream = space_s_stream\<lparr>os_str := ''a+b+c''\<rparr>, m_extensions = 4,
         m_need = 0\<rparr> = string_with_plus ''a+b+c''
   \<and> CHR ''+'' \<notin> set ''a''
   \<and> string_with_plus ''a+b+c'' = ''a b+c''
   \<and> CHR ''+'' \<notin> set ''abc''
   \<and> string_with_plus ''abc'' = ''abc''
   \<and> text_of (feeds (Format_abort 0 NoSink no_device ''% s'' Special_None)
               [string_arg ''a+b+c'']) = Inr ''a b+c''"
proof -
  let ?start = "\<lparr>f_abort = True, f_success = None, f_error = kNone, f_count = None,
            f_text = ''% s'', f_parse = None, f_flags = Special_None, f_device = no_device\<rparr>"
  let ?before = "\<lparr>m_ostream = space_s_stream, m_extensions = 4, m_need = 0\<rparr>"
  let ?m = "\<lparr>m_ostream = space_s_stream\<lparr>os_str := ''a+b+c''\<rparr>, m_extensions = 4, m_need = 0\<rparr>"
  let ?parse = "\<lparr>pa_format = [?before], pa_borders = [0, 3],
                pa_args = [[\<lparr>r_set_these = 32, r_manip = 0\<rparr>]],
                pa_current_arg = 0, pa_simple = False, pa_sink = NoSink\<rparr>"
  let ?f = "\<lparr>f_abort = True, f_success = None, f_error = kTooFewArguments, f_count = None,
            f_text = ''% s'', f_parse = Some ?parse, f_flags = Special_None,
            f_device = no_device\<rparr>"
  have i: "feeds (Init 0 NoSink ?start) [] = Inr ?f"
    by (simp add: Init_def parse_space_s Let_def set_success_def)
  have d: "apply_defines (string_arg ''a+b+c'') [\<lparr>r_set_these = 32, r_manip = 0\<rparr>] [?before]
     = Inr [?m]"
    by (simp add: space_s_stream_def string_arg_def) code_simp
  have k: "(4 :: 32 word) AND kPlusSpace \<noteq> Extensions_kNone"
    by (simp add: kPlusSpace_def Extensions_kNone_def)
  have p: "CHR ''+'' \<notin> set ''a''" "CHR ''+'' \<notin> set ''abc''"
    by simp_all
  have r: "text_of (feeds (Format_abort 0 NoSink no_device ''% s'' Special_None)
               [string_arg ''a+b+c'']) = Inr ''a b+c''"
    by (simp add: string_arg_def) code_simp
  from assembler_replaces_first_plus [of 0 NoSink ?start "[]" ?f ?parse "string_arg ''a+b+c''"
      "[?m]" ?m "''a''" "''b+c''" "''abc''"] i d k p r
  show ?thesis
    by (simp del: apply_defines.simps)
qed




end
